theory Spec2Isabelle
  imports Complex_Main
begin

section \<open>Numbers and arrays\<close>

text \<open>
  The repository stores every matrix as a numpy array of \<^verbatim>\<open>np.longdouble\<close>.  The entries
  of the matrices handed to the model, and of the basis returned by the null-space routine,
  are modelled as exact reals: rounding, overflow and underflow are outside this
  development.  The one operation of the code that leaves the finite numbers on finite
  input is the division \<^verbatim>\<open>steady_state_vector / steady_state_vector.sum()\<close>, which numpy
  evaluates without raising when the sum is zero.  Its results, and everything the decoder
  computes from them, are therefore values of \<open>npfloat\<close>: a finite real, an infinity
  or a NaN, with the comparison and multiplication rules of IEEE arithmetic.
\<close>

datatype npfloat = Fin real | PInf | NInf | NaN

fun float_div :: "real \<Rightarrow> real \<Rightarrow> npfloat" where
  "float_div x d =
     (if d \<noteq> 0 then Fin (x / d)
      else if 0 < x then PInf
      else if x < 0 then NInf
      else NaN)"

fun float_mul :: "npfloat \<Rightarrow> real \<Rightarrow> npfloat" where
  "float_mul (Fin a) b = Fin (a * b)"
| "float_mul PInf b = (if 0 < b then PInf else if b < 0 then NInf else NaN)"
| "float_mul NInf b = (if 0 < b then NInf else if b < 0 then PInf else NaN)"
| "float_mul NaN b = NaN"

fun float_gt :: "npfloat \<Rightarrow> npfloat \<Rightarrow> bool" where
  "float_gt NaN y = False"
| "float_gt x NaN = False"
| "float_gt (Fin a) (Fin b) = (b < a)"
| "float_gt PInf PInf = False"
| "float_gt PInf y = True"
| "float_gt x PInf = False"
| "float_gt NInf y = False"
| "float_gt x NInf = True"

fun float_le :: "npfloat \<Rightarrow> npfloat \<Rightarrow> bool" where
  "float_le NaN y = False"
| "float_le x NaN = False"
| "float_le (Fin a) (Fin b) = (a \<le> b)"
| "float_le NInf y = True"
| "float_le x PInf = True"
| "float_le PInf y = False"
| "float_le x NInf = False"

fun is_nan :: "npfloat \<Rightarrow> bool" where
  "is_nan NaN = True"
| "is_nan x = False"

text \<open>
  A numpy array is its shape and its entries in row-major order, the order in which
  \<^verbatim>\<open>mat.flatten()\<close> lists them.  Every array numpy builds has as many entries as its
  shape says (\<open>wf_ndarray\<close>).
\<close>

datatype ndarray = NDArray (shape: "nat list") (flatten: "real list")

definition wf_ndarray :: "ndarray \<Rightarrow> bool" where
  "wf_ndarray a = (length (flatten a) = prod_list (shape a))"

text \<open>The exceptions the two modules raise.  The \<^verbatim>\<open>ValueError\<close> of a non-unique
  stationary distribution formats the eigen-basis into its message; the model keeps the
  basis itself.\<close>

datatype error =
    ValueError string
  | ValueError_eigen_basis ndarray
  | IndexError
  | OverflowError

text \<open>\<^verbatim>\<open>len(a)\<close>, a row \<^verbatim>\<open>a[i]\<close> and an entry \<^verbatim>\<open>a[i][j]\<close> of a two-dimensional
  array, for indices that are in range.\<close>

definition len_nd :: "ndarray \<Rightarrow> nat" where
  "len_nd a = shape a ! 0"

definition num_cols :: "ndarray \<Rightarrow> nat" where
  "num_cols a = shape a ! 1"

definition row_of :: "ndarray \<Rightarrow> nat \<Rightarrow> real list" where
  "row_of a i = take (num_cols a) (drop (i * num_cols a) (flatten a))"

definition entry :: "ndarray \<Rightarrow> nat \<Rightarrow> nat \<Rightarrow> real" where
  "entry a i j = flatten a ! (i * num_cols a + j)"

text \<open>
  Integer indexing as numpy does it.  An index \<open>i\<close> with \<open>- n \<le> i < 0\<close> counts from the
  end.  numpy converts the index to a signed 64-bit integer (\<^verbatim>\<open>npy_intp\<close>) and raises
  \<^verbatim>\<open>OverflowError\<close> for a Python integer that does not fit; an index that fits and lies
  outside \<open>[- n, n)\<close> raises \<^verbatim>\<open>IndexError\<close>.  No dimension of an array exceeds \<open>2\<^sup>6\<^sup>3 - 1\<close>,
  so an index inside \<open>[- n, n)\<close> always fits, and the range is tested first.
\<close>

definition fits_intp :: "int \<Rightarrow> bool" where
  "fits_intp i = (- (2 ^ 63) \<le> i \<and> i < 2 ^ 63)"

definition index_failure :: "int \<Rightarrow> error" where
  "index_failure i = (if fits_intp i then IndexError else OverflowError)"

definition py_index :: "nat \<Rightarrow> int \<Rightarrow> error + nat" where
  "py_index n i =
     (if 0 \<le> i \<and> i < int n then Inr (nat i)
      else if - int n \<le> i \<and> i < 0 then Inr (nat (int n + i))
      else Inl (index_failure i))"

definition getitem2 :: "ndarray \<Rightarrow> int \<Rightarrow> int \<Rightarrow> error + real" where
  "getitem2 a i j =
     (case py_index (len_nd a) i of
        Inl e \<Rightarrow> Inl e
      | Inr r \<Rightarrow>
          (case py_index (num_cols a) j of
             Inl e \<Rightarrow> Inl e
           | Inr c \<Rightarrow> Inr (entry a r c)))"

text \<open>\<^verbatim>\<open>a.transpose()[j]\<close>: column \<open>j\<close> of a two-dimensional array.\<close>

definition column_of :: "ndarray \<Rightarrow> nat \<Rightarrow> real list" where
  "column_of a j = map (\<lambda>i. entry a i j) [0..<len_nd a]"

definition transpose_getitem :: "ndarray \<Rightarrow> int \<Rightarrow> error + real list" where
  "transpose_getitem a j =
     (case py_index (num_cols a) j of
        Inl e \<Rightarrow> Inl e
      | Inr c \<Rightarrow> Inr (column_of a c))"

text \<open>\<^verbatim>\<open>mat.sum(axis=1)\<close>, \<^verbatim>\<open>np.identity(n)\<close>, the entrywise difference of two arrays
  of one shape, and \<^verbatim>\<open>mat.transpose()\<close>, all on two-dimensional arrays.\<close>

definition sum_axis1 :: "ndarray \<Rightarrow> real list" where
  "sum_axis1 a = map (\<lambda>i. sum_list (row_of a i)) [0..<len_nd a]"

definition identity :: "nat \<Rightarrow> ndarray" where
  "identity n =
     NDArray [n, n]
       (concat (map (\<lambda>i. map (\<lambda>j. if i = j then 1 else 0) [0..<n]) [0..<n]))"

definition subtract :: "ndarray \<Rightarrow> ndarray \<Rightarrow> ndarray" where
  "subtract a b = NDArray (shape a) (map2 (-) (flatten a) (flatten b))"

definition transpose_nd :: "ndarray \<Rightarrow> ndarray" where
  "transpose_nd a =
     NDArray [num_cols a, len_nd a]
       (concat (map (\<lambda>j. column_of a j) [0..<num_cols a]))"

section \<open>The hidden Markov model\<close>

record HiddenMarkovModel =
  transition_matrix :: ndarray
  sampling_probabilities :: ndarray

text \<open>
  The two loops of each validator: over the entries, and over the row sums.  The
  comparisons are those of the exact reals, and the constant \<^verbatim>\<open>1e-5\<close> is read as
  \<open>1 / 100000\<close>.  The code evaluates \<^verbatim>\<open>rowSum - 1.0 > 1e-5\<close> on rounded
  \<^verbatim>\<open>np.longdouble\<close> values, against the double nearest to \<open>1 / 100000\<close>, and every
  comparison with a NaN is false there.  So the code and these definitions agree on a
  matrix of finite entries unless a row sum lies within the rounding error of the
  threshold \<open>1 + 1 / 100000\<close>; a matrix with a NaN entry, which the code accepts, has no
  counterpart here.
\<close>

fun check_entries :: "string \<Rightarrow> real list \<Rightarrow> error + unit" where
  "check_entries msg [] = Inr ()"
| "check_entries msg (e # es) =
     (if e < 0 then Inl (ValueError msg) else check_entries msg es)"

fun check_row_sums :: "string \<Rightarrow> real list \<Rightarrow> error + unit" where
  "check_row_sums msg [] = Inr ()"
| "check_row_sums msg (rowSum # rs) =
     (if rowSum - 1 > 1 / 100000 then Inl (ValueError msg) else check_row_sums msg rs)"

definition valid_tranisition_matrix :: "ndarray \<Rightarrow> error + unit" where
  "valid_tranisition_matrix mat =
     (if length (shape mat) \<noteq> 2 then Inl (ValueError ''Matrix is not two-dimensions!'')
      else if shape mat ! 0 \<noteq> shape mat ! 1 then Inl (ValueError ''Matrix is not square!'')
      else
        (case check_entries ''Rows include negative probabilities!'' (flatten mat) of
           Inl e \<Rightarrow> Inl e
         | Inr u \<Rightarrow> check_row_sums ''Matrix is not stochastic!'' (sum_axis1 mat)))"

text \<open>The validator of the sampling probabilities reads the transition matrix of the
  model under construction, which has passed its own validator by then.\<close>

definition valid_sampling_probabilities :: "ndarray \<Rightarrow> ndarray \<Rightarrow> error + unit" where
  "valid_sampling_probabilities hmm_transition_matrix sampling =
     (if length (shape hmm_transition_matrix) \<noteq> length (shape sampling)
      then Inl (ValueError ''Does not provide a distribution for each state!'')
      else
        (case check_entries ''Distributions on marbles include negative probabilities!''
                (flatten sampling) of
           Inl e \<Rightarrow> Inl e
         | Inr u \<Rightarrow> check_row_sums ''Not a valid distribution!'' (sum_axis1 sampling)))"

text \<open>Construction of the frozen class: the validators run in the order of the fields,
  and the first exception leaves no model behind.\<close>

definition HiddenMarkovModel_init :: "ndarray \<Rightarrow> ndarray \<Rightarrow> error + HiddenMarkovModel" where
  "HiddenMarkovModel_init mat sampling =
     (case valid_tranisition_matrix mat of
        Inl e \<Rightarrow> Inl e
      | Inr u \<Rightarrow>
          (case valid_sampling_probabilities mat sampling of
             Inl e \<Rightarrow> Inl e
           | Inr u' \<Rightarrow>
               Inr \<lparr>transition_matrix = mat, sampling_probabilities = sampling\<rparr>))"

subsection \<open>Steady-state probabilities\<close>

text \<open>
  \<^verbatim>\<open>scipy.linalg.null_space\<close> is a library routine, not code of the repository: it is
  a parameter \<open>null_space\<close> of the model.  The routine returns a two-dimensional array
  whose columns are a basis of the kernel of its argument; \<open>is_null_space_basis\<close> is
  that contract, with \<open>matvec\<close> the product of a matrix and a vector.
\<close>

definition matvec :: "ndarray \<Rightarrow> real list \<Rightarrow> real list" where
  "matvec a v = map (\<lambda>i. sum_list (map2 (*) (row_of a i) v)) [0..<len_nd a]"

definition all_zero :: "real list \<Rightarrow> bool" where
  "all_zero v = (set v \<subseteq> {0})"

definition is_null_space_basis :: "ndarray \<Rightarrow> ndarray \<Rightarrow> bool" where
  "is_null_space_basis m b =
     (wf_ndarray b \<and> length (shape b) = 2 \<and> len_nd b = num_cols m \<and>
      (\<forall>c. length c = num_cols b \<longrightarrow> all_zero (matvec m (matvec b c))) \<and>
      (\<forall>v. length v = num_cols m \<and> all_zero (matvec m v) \<longrightarrow>
           (\<exists>!c. length c = num_cols b \<and> matvec b c = v)))"

definition kernel_matrix :: "HiddenMarkovModel \<Rightarrow> ndarray" where
  "kernel_matrix hmm =
     transpose_nd
       (subtract (transition_matrix hmm) (identity (len_nd (transition_matrix hmm))))"

definition steady_state_probabilities ::
  "(ndarray \<Rightarrow> ndarray) \<Rightarrow> HiddenMarkovModel \<Rightarrow> error + npfloat list" where
  "steady_state_probabilities null_space hmm =
     (let eigen_basis = null_space (kernel_matrix hmm) in
      if length (shape eigen_basis) < 2 then Inl IndexError
      else
        let geometric_multiplicity = shape eigen_basis ! 1 in
        if geometric_multiplicity > 1 then Inl (ValueError_eigen_basis eigen_basis)
        else
          let steady_state_vector = flatten eigen_basis in
          Inr (map (\<lambda>x. float_div x (sum_list steady_state_vector)) steady_state_vector))"

section \<open>Viterbi's algorithm\<close>

text \<open>The product of two one-dimensional arrays, with numpy's broadcasting: arrays of
  one length are multiplied entry by entry, an array of length one is stretched to the
  other's length, and any other pair of lengths raises \<^verbatim>\<open>ValueError\<close>.\<close>

definition broadcast_mul :: "npfloat list \<Rightarrow> real list \<Rightarrow> error + npfloat list" where
  "broadcast_mul xs ys =
     (if length xs = length ys then Inr (map2 float_mul xs ys)
      else if length xs = 1 then Inr (map (float_mul (hd xs)) ys)
      else if length ys = 1 then Inr (map (\<lambda>x. float_mul x (hd ys)) xs)
      else Inl (ValueError ''operands could not be broadcast together''))"

text \<open>The innermost loop: the scan of the parent candidates for one bag, carrying the
  candidate's index, the running maximum and the most likely parent so far.\<close>

fun scan_parents ::
  "ndarray \<Rightarrow> nat \<Rightarrow> nat \<Rightarrow> npfloat list \<Rightarrow> npfloat \<Rightarrow> nat \<Rightarrow> error + (npfloat \<times> nat)" where
  "scan_parents tm bag parent_candidate [] max_parent_probability most_likely_parent =
     Inr (max_parent_probability, most_likely_parent)"
| "scan_parents tm bag parent_candidate (parent_probability # rest)
       max_parent_probability most_likely_parent =
     (case getitem2 tm (int parent_candidate) (int bag) of
        Inl e \<Rightarrow> Inl e
      | Inr t \<Rightarrow>
          (let p = float_mul parent_probability t in
           if float_gt p max_parent_probability
           then scan_parents tm bag (Suc parent_candidate) rest p parent_candidate
           else scan_parents tm bag (Suc parent_candidate) rest
                  max_parent_probability most_likely_parent))"

text \<open>The body of the loop over the bags: the new probability of the bag and its most
  likely parent.\<close>

definition bag_step ::
  "HiddenMarkovModel \<Rightarrow> npfloat list \<Rightarrow> int \<Rightarrow> nat \<Rightarrow> error + (npfloat \<times> nat)" where
  "bag_step hmm probabilities marble bag =
     (case scan_parents (transition_matrix hmm) bag 0 probabilities (Fin 0) 0 of
        Inl e \<Rightarrow> Inl e
      | Inr (max_parent_probability, most_likely_parent) \<Rightarrow>
          (case getitem2 (sampling_probabilities hmm) (int bag) marble of
             Inl e \<Rightarrow> Inl e
           | Inr s \<Rightarrow> Inr (float_mul max_parent_probability s, most_likely_parent)))"

fun bags_loop ::
  "HiddenMarkovModel \<Rightarrow> npfloat list \<Rightarrow> int \<Rightarrow> nat list \<Rightarrow> error + (npfloat \<times> nat) list" where
  "bags_loop hmm probabilities marble [] = Inr []"
| "bags_loop hmm probabilities marble (bag # bags) =
     (case bag_step hmm probabilities marble bag of
        Inl e \<Rightarrow> Inl e
      | Inr r \<Rightarrow>
          (case bags_loop hmm probabilities marble bags of
             Inl e \<Rightarrow> Inl e
           | Inr rs \<Rightarrow> Inr (r # rs)))"

text \<open>The loop over the marbles after the first: the state is the probability vector
  and the list \<^verbatim>\<open>parents_by_marble\<close>.\<close>

fun marbles_loop ::
  "HiddenMarkovModel \<Rightarrow> nat \<Rightarrow> int list \<Rightarrow> npfloat list \<Rightarrow> nat list list \<Rightarrow>
   error + (npfloat list \<times> nat list list)" where
  "marbles_loop hmm num_bags [] probabilities parents_by_marble =
     Inr (probabilities, parents_by_marble)"
| "marbles_loop hmm num_bags (marble # rest) probabilities parents_by_marble =
     (case bags_loop hmm probabilities marble [0..<num_bags] of
        Inl e \<Rightarrow> Inl e
      | Inr new \<Rightarrow>
          marbles_loop hmm num_bags rest (map fst new) (parents_by_marble @ [map snd new]))"

text \<open>\<^verbatim>\<open>np.argmax\<close> on a one-dimensional array of floats: the first index of the
  maximum, where a NaN counts as the maximum; the empty array raises.\<close>

fun argmax_scan :: "npfloat \<Rightarrow> nat \<Rightarrow> nat \<Rightarrow> npfloat list \<Rightarrow> nat" where
  "argmax_scan mp max_ind i [] = max_ind"
| "argmax_scan mp max_ind i (x # xs) =
     (if is_nan mp then max_ind
      else if \<not> float_le x mp then argmax_scan x i (Suc i) xs
      else argmax_scan mp max_ind (Suc i) xs)"

definition argmax :: "npfloat list \<Rightarrow> error + nat" where
  "argmax xs =
     (case xs of
        [] \<Rightarrow> Inl (ValueError ''attempt to get argmax of an empty sequence'')
      | x # rest \<Rightarrow> Inr (argmax_scan x 0 1 rest))"

text \<open>The walk back through the reversed list of parent arrays; \<^verbatim>\<open>parent_array[i]\<close>
  on a Python list raises when \<open>i\<close> is not an index of it.\<close>

fun reconstruct :: "nat list list \<Rightarrow> nat \<Rightarrow> error + nat list" where
  "reconstruct [] last_visited_bag = Inr []"
| "reconstruct (parent_array # rest) last_visited_bag =
     (if last_visited_bag < length parent_array
      then
        (let parent = parent_array ! last_visited_bag in
         case reconstruct rest parent of
           Inl e \<Rightarrow> Inl e
         | Inr path \<Rightarrow> Inr (parent # path))
      else Inl IndexError)"

text \<open>The forward pass of \<^verbatim>\<open>viterbi\<close>, from the first marble to the end of the loop
  over the marbles.\<close>

definition viterbi_forward ::
  "(ndarray \<Rightarrow> ndarray) \<Rightarrow> HiddenMarkovModel \<Rightarrow> int list \<Rightarrow>
   error + (npfloat list \<times> nat list list)" where
  "viterbi_forward null_space hmm sequence =
     (let first_marble = hd sequence in
      case steady_state_probabilities null_space hmm of
        Inl e \<Rightarrow> Inl e
      | Inr steady \<Rightarrow>
          (case transpose_getitem (sampling_probabilities hmm) first_marble of
             Inl e \<Rightarrow> Inl e
           | Inr col \<Rightarrow>
               (case broadcast_mul steady col of
                  Inl e \<Rightarrow> Inl e
                | Inr probabilities \<Rightarrow>
                    marbles_loop hmm (len_nd (transition_matrix hmm)) (tl sequence)
                      probabilities [])))"

definition viterbi ::
  "(ndarray \<Rightarrow> ndarray) \<Rightarrow> HiddenMarkovModel \<Rightarrow> int list \<Rightarrow> error + nat list" where
  "viterbi null_space hmm sequence =
     (if sequence = [] then Inl (ValueError ''Cannot provide empty sequence of events!'')
      else
        (case viterbi_forward null_space hmm sequence of
           Inl e \<Rightarrow> Inl e
         | Inr (probabilities, parents_by_marble) \<Rightarrow>
             (case argmax probabilities of
                Inl e \<Rightarrow> Inl e
              | Inr most_likely_end_bag \<Rightarrow>
                  (case reconstruct (rev parents_by_marble) most_likely_end_bag of
                     Inl e \<Rightarrow> Inl e
                   | Inr path \<Rightarrow> Inr (rev (most_likely_end_bag # path))))))"

section \<open>Empty sequences\<close>

text \<open>
  C8.  Decoding the empty sequence of marbles raises the \<^verbatim>\<open>ValueError\<close> of the first
  statement of \<^verbatim>\<open>viterbi\<close>, for every model and whatever the null-space routine would
  return: the check comes before the steady-state probabilities are asked for.
\<close>

theorem viterbi_empty_sequence:
  "viterbi null_space hmm [] = Inl (ValueError ''Cannot provide empty sequence of events!'')"
  by (simp add: viterbi_def)

section \<open>Construction of a model\<close>

lemma check_entries_eq:
  "check_entries msg xs = (if \<forall>x\<in>set xs. 0 \<le> x then Inr () else Inl (ValueError msg))"
  by (induction xs) auto

lemma check_row_sums_eq:
  "check_row_sums msg xs =
     (if \<forall>s\<in>set xs. s \<le> 1 + 1 / 100000 then Inr () else Inl (ValueError msg))"
  by (induction xs) auto

text \<open>What a successful construction says of the two matrices.\<close>

lemma init_Inr_D:
  assumes "HiddenMarkovModel_init tm em = Inr hmm"
  shows "transition_matrix hmm = tm" "sampling_probabilities hmm = em"
    "length (shape tm) = 2" "len_nd tm = num_cols tm" "\<forall>x\<in>set (flatten tm). 0 \<le> x"
    "length (shape em) = 2" "\<forall>x\<in>set (flatten em). 0 \<le> x"
  using assms
  by (auto simp: HiddenMarkovModel_init_def valid_tranisition_matrix_def
      valid_sampling_probabilities_def check_entries_eq check_row_sums_eq len_nd_def
      num_cols_def split: sum.splits if_splits)

section \<open>Arrays given by a function of the row and the column\<close>

lemmas nd_simps = kernel_matrix_def transpose_nd_def subtract_def identity_def column_of_def
  entry_def len_nd_def num_cols_def row_of_def matvec_def all_zero_def wf_ndarray_def

definition table :: "nat \<Rightarrow> nat \<Rightarrow> (nat \<Rightarrow> nat \<Rightarrow> real) \<Rightarrow> ndarray" where
  "table r c f = NDArray [r, c] (concat (map (\<lambda>i. map (f i) [0..<c]) [0..<r]))"

lemma take_drop_concat_uniform:
  "\<forall>xs\<in>set xss. length xs = c \<Longrightarrow> i < length xss \<Longrightarrow>
     take c (drop (i * c) (concat xss)) = xss ! i"
proof (induction xss arbitrary: i)
  case Nil
  then show ?case by simp
next
  case (Cons xs xss)
  show ?case
  proof (cases i)
    case 0
    with Cons.prems show ?thesis by simp
  next
    case (Suc k)
    with Cons show ?thesis by simp
  qed
qed

lemma index_in_table: "i < r \<Longrightarrow> j < c \<Longrightarrow> i * c + j < r * (c::nat)"
proof -
  assume a: "i < r" "j < c"
  have "i * c + j < Suc i * c" using a(2) by simp
  also have "\<dots> \<le> r * c" using a(1) by (simp add: Suc_leI mult_le_mono1 del: mult_Suc)
  finally show ?thesis .
qed

lemma nth_concat_uniform:
  assumes "\<forall>xs\<in>set xss. length xs = c" and "i < length xss" and "j < c"
  shows "concat xss ! (i * c + j) = xss ! i ! j"
proof -
  have "xss ! i ! j = take c (drop (i * c) (concat xss)) ! j"
    using assms by (simp add: take_drop_concat_uniform)
  also have "\<dots> = drop (i * c) (concat xss) ! j" using assms by simp
  also have "\<dots> = concat xss ! (i * c + j)"
  proof -
    have "length (concat xss) = length xss * c"
      using assms(1) by (induction xss) auto
    moreover have "i * c + j < length xss * c"
      using assms(2,3) by (rule index_in_table)
    ultimately have "i * c \<le> length (concat xss)" by linarith
    then show ?thesis by (rule nth_drop)
  qed
  finally show ?thesis by simp
qed

lemma row_of_table: "i < r \<Longrightarrow> row_of (table r c f) i = map (f i) [0..<c]"
  unfolding row_of_def table_def num_cols_def
  by (simp add: take_drop_concat_uniform)

lemma entry_table: "i < r \<Longrightarrow> j < c \<Longrightarrow> entry (table r c f) i j = f i j"
  unfolding entry_def table_def num_cols_def
  by (simp add: nth_concat_uniform)

lemma length_flatten_table: "length (flatten (table r c f)) = r * c"
  by (simp add: table_def length_concat comp_def sum_list_triv)

lemma identity_table: "identity n = table n n (\<lambda>i j. if i = j then 1 else 0)"
  by (simp add: identity_def table_def)

lemma transpose_table: "transpose_nd a = table (num_cols a) (len_nd a) (\<lambda>j i. entry a i j)"
  by (simp add: transpose_nd_def table_def column_of_def)

lemma shape_two_dimensional:
  "length (shape a) = 2 \<Longrightarrow> shape a = [len_nd a, num_cols a]"
  by (cases "shape a") (auto simp: len_nd_def num_cols_def length_Suc_conv)

lemma row_of_entries:
  assumes "wf_ndarray a" "length (shape a) = 2" "i < len_nd a"
  shows "row_of a i = map (entry a i) [0..<num_cols a]"
proof (rule nth_equalityI)
  let ?c = "num_cols a"
  from assms(1,2) have len: "length (flatten a) = len_nd a * ?c"
    by (simp add: wf_ndarray_def shape_two_dimensional)
  from assms(3) have "Suc i * ?c \<le> len_nd a * ?c"
    by (simp add: Suc_leI mult_le_mono1 del: mult_Suc)
  with len have room: "i * ?c + ?c \<le> length (flatten a)" by simp
  then show "length (row_of a i) = length (map (entry a i) [0..<?c])"
    by (simp add: row_of_def)
  fix j assume "j < length (row_of a i)"
  then have j: "j < ?c" by (simp add: row_of_def)
  with room show "row_of a i ! j = map (entry a i) [0..<?c] ! j"
    by (simp add: row_of_def entry_def)
qed

lemma row_of_one_column:
  assumes "wf_ndarray b" "shape b = [n, 1]" "i < n"
  shows "row_of b i = [flatten b ! i]"
proof -
  have "length (flatten b) = n" using assms by (simp add: wf_ndarray_def)
  with assms(3) have "take 1 (drop i (flatten b)) = [flatten b ! i]"
    by (simp add: take_Suc_conv_app_nth)
  with assms(2) show ?thesis by (simp add: row_of_def num_cols_def)
qed

lemma dot_upt:
  "length v = c \<Longrightarrow> sum_list (map2 (*) (map g [0..<c]) v) = (\<Sum>j<c. g j * v ! j)"
proof -
  assume l: "length v = c"
  have "map2 (*) (map g [0..<c]) v = map (\<lambda>j. g j * v ! j) [0..<c]"
    using l by (intro nth_equalityI) simp_all
  then show ?thesis
    by (simp add: interv_sum_list_conv_sum_set_nat atLeast0LessThan)
qed

lemma matvec_table:
  "length v = c \<Longrightarrow> matvec (table r c f) v = map (\<lambda>i. \<Sum>j<c. f i j * v ! j) [0..<r]"
proof -
  assume l: "length v = c"
  have "len_nd (table r c f) = r" by (simp add: table_def len_nd_def)
  then show ?thesis
    using l by (simp add: matvec_def row_of_table dot_upt)
qed

lemma all_zero_map_upt: "all_zero (map g [0..<n]) \<longleftrightarrow> (\<forall>j<n. g j = 0)"
  by (fastforce simp: all_zero_def image_subset_iff)

lemma sum_list_mul_zero_row:
  "set xs \<subseteq> {0::real} \<Longrightarrow> sum_list (map2 (*) xs v) = 0"
proof (induction xs arbitrary: v)
  case Nil
  then show ?case by simp
next
  case (Cons x xs)
  then show ?case by (cases v) auto
qed

lemma entry_nonneg:
  assumes "wf_ndarray a" "length (shape a) = 2" "\<forall>x\<in>set (flatten a). 0 \<le> x"
    "i < len_nd a" "j < num_cols a"
  shows "0 \<le> entry a i j"
proof -
  from assms(2) have "shape a = [len_nd a, num_cols a]"
    by (cases "shape a") (auto simp: len_nd_def num_cols_def length_Suc_conv)
  with assms(1) have "length (flatten a) = len_nd a * num_cols a"
    by (simp add: wf_ndarray_def)
  with index_in_table[OF assms(4,5)] have "i * num_cols a + j < length (flatten a)" by simp
  with assms(3) show ?thesis by (simp add: entry_def)
qed

lemma length_one: "length v = Suc 0 \<Longrightarrow> \<exists>a. v = [a]"
  by (metis length_0_conv length_Suc_conv)

lemma length_two: "length v = 2 \<Longrightarrow> \<exists>a b. v = [a, b]"
  by (metis (no_types) length_0_conv length_Suc_conv numeral_2_eq_2)

section \<open>Steady-state probabilities\<close>

subsection \<open>A kernel of dimension zero\<close>

text \<open>The one-state model with transition matrix \<open>[[0.5]]\<close>: its row sums to less than
  one, the kernel of \<open>(T - I)\<^sup>T = [[-0.5]]\<close> is trivial, and the basis of that kernel is
  the array of shape \<open>(1, 0)\<close>.\<close>

definition substochastic_hmm :: HiddenMarkovModel where
  "substochastic_hmm =
     \<lparr>transition_matrix = NDArray [1, 1] [1 / 2],
      sampling_probabilities = NDArray [1, 1] [1]\<rparr>"

lemma substochastic_hmm_valid:
  "HiddenMarkovModel_init (NDArray [1, 1] [1 / 2]) (NDArray [1, 1] [1]) = Inr substochastic_hmm"
  by (simp add: HiddenMarkovModel_init_def valid_tranisition_matrix_def
      valid_sampling_probabilities_def sum_axis1_def row_of_def len_nd_def num_cols_def
      substochastic_hmm_def)

lemma substochastic_kernel: "kernel_matrix substochastic_hmm = NDArray [1, 1] [- 1 / 2]"
  by (simp add: substochastic_hmm_def nd_simps)

lemma substochastic_basis: "is_null_space_basis (NDArray [1, 1] [- 1 / 2]) (NDArray [1, 0] [])"
  unfolding is_null_space_basis_def
proof (intro conjI allI impI)
  fix v :: "real list"
  assume "length v = num_cols (NDArray [1, 1] [- 1 / 2]) \<and>
          all_zero (matvec (NDArray [1, 1] [- 1 / 2]) v)"
  then have v: "v = [0]"
    using length_one[of v] by (auto simp: nd_simps)
  show "\<exists>!c. length c = num_cols (NDArray [1, 0] []) \<and> matvec (NDArray [1, 0] []) c = v"
    using v by (auto simp: nd_simps)
qed (simp_all add: nd_simps)

text \<open>
  C4.  When the basis of the kernel has no column, \<^verbatim>\<open>steady_state_probabilities\<close> raises
  nothing: the multiplicity \<open>0\<close> passes the test \<^verbatim>\<open>geometric_multiplicity > 1\<close>, the
  flattened basis is the empty vector, and the empty vector divided by its sum \<open>0.0\<close> is
  the empty vector, which is returned.
\<close>

theorem steady_state_dimension_zero:
  assumes "wf_ndarray (null_space (kernel_matrix hmm))"
    and "shape (null_space (kernel_matrix hmm)) = [n, 0]"
  shows "steady_state_probabilities null_space hmm = Inr []"
  using assms by (simp add: steady_state_probabilities_def wf_ndarray_def Let_def)

theorem steady_state_dimension_zero_witness:
  "HiddenMarkovModel_init (NDArray [1, 1] [1 / 2]) (NDArray [1, 1] [1]) = Inr substochastic_hmm \<and>
   is_null_space_basis (kernel_matrix substochastic_hmm) (NDArray [1, 0] []) \<and>
   steady_state_probabilities (\<lambda>m. NDArray [1, 0] []) substochastic_hmm = Inr []"
  using steady_state_dimension_zero [of "\<lambda>m. NDArray [1, 0] []" substochastic_hmm 1]
    substochastic_hmm_valid substochastic_basis
  by (simp add: substochastic_kernel wf_ndarray_def)

subsection \<open>A kernel of dimension one\<close>

text \<open>A two-state model inside the tolerance of the validators: both row sums exceed one
  by less than \<open>1e-5\<close>.  The kernel of \<open>(T - I)\<^sup>T\<close> is spanned by \<open>(1, -2)\<close>.\<close>

definition tolerance_hmm :: HiddenMarkovModel where
  "tolerance_hmm =
     \<lparr>transition_matrix =
        NDArray [2, 2] [1 + 1 / 524288, 1 / 524288, 1 / 1048576, 1 + 1 / 1048576],
      sampling_probabilities = NDArray [2, 2] [1, 0, 0, 1]\<rparr>"

lemma tolerance_hmm_valid:
  "HiddenMarkovModel_init
     (NDArray [2, 2] [1 + 1 / 524288, 1 / 524288, 1 / 1048576, 1 + 1 / 1048576])
     (NDArray [2, 2] [1, 0, 0, 1]) = Inr tolerance_hmm"
  by (simp add: HiddenMarkovModel_init_def valid_tranisition_matrix_def
      valid_sampling_probabilities_def sum_axis1_def row_of_def len_nd_def num_cols_def
      tolerance_hmm_def upt_rec)

lemma tolerance_kernel:
  "kernel_matrix tolerance_hmm =
     NDArray [2, 2] [1 / 524288, 1 / 1048576, 1 / 524288, 1 / 1048576]"
  by (simp add: tolerance_hmm_def nd_simps upt_rec)

lemma tolerance_basis:
  "is_null_space_basis
     (NDArray [2, 2] [1 / 524288, 1 / 1048576, 1 / 524288, 1 / 1048576])
     (NDArray [2, 1] [1, - 2])"
  unfolding is_null_space_basis_def
proof (intro conjI allI impI)
  fix v :: "real list"
  assume "length v =
            num_cols (NDArray [2, 2] [1 / 524288, 1 / 1048576, 1 / 524288, 1 / 1048576]) \<and>
          all_zero
            (matvec (NDArray [2, 2] [1 / 524288, 1 / 1048576, 1 / 524288, 1 / 1048576]) v)"
  then obtain a b where v: "v = [a, b]" and k: "b = - 2 * a"
    using length_two[of v] by (auto simp: nd_simps upt_rec)
  show "\<exists>!c. length c = num_cols (NDArray [2, 1] [1, - 2]) \<and>
              matvec (NDArray [2, 1] [1, - 2]) c = v"
  proof (rule ex1I[of _ "[a]"])
    show "length [a] = num_cols (NDArray [2, 1] [1, - 2]) \<and>
          matvec (NDArray [2, 1] [1, - 2]) [a] = v"
      using v k by (simp add: nd_simps upt_rec)
  next
    fix c
    assume "length c = num_cols (NDArray [2, 1] [1, - 2]) \<and>
            matvec (NDArray [2, 1] [1, - 2]) c = v"
    then show "c = [a]"
      using v length_one[of c] by (auto simp: nd_simps upt_rec)
  qed
next
  fix c :: "real list"
  assume "length c = num_cols (NDArray [2, 1] [1, - 2])"
  then show "all_zero
      (matvec (NDArray [2, 2] [1 / 524288, 1 / 1048576, 1 / 524288, 1 / 1048576])
         (matvec (NDArray [2, 1] [1, - 2]) c))"
    using length_one[of c] by (auto simp: nd_simps upt_rec)
qed (simp_all add: nd_simps)

lemma sum_list_divide: "sum_list (map (\<lambda>x. x / d) xs) = sum_list xs / (d::real)"
  by (induction xs) (simp_all add: add_divide_distrib)

lemma sum_list_nonneg_real: "\<forall>x\<in>set xs. 0 \<le> (x::real) \<Longrightarrow> 0 \<le> sum_list xs"
  by (induction xs) auto

lemma sum_list_nonpos_real: "\<forall>x\<in>set xs. (x::real) \<le> 0 \<Longrightarrow> sum_list xs \<le> 0"
  by (induction xs) auto

subsection \<open>Rows that sum to at most one\<close>

text \<open>The kernel matrix \<open>(T - I)\<^sup>T\<close> entry by entry: a vector \<open>v\<close> is in its kernel when
  \<open>\<Sum>i. T[i][j] * v[i] = v[j]\<close> for every \<open>j\<close>.\<close>

lemma kernel_matrix_entries:
  assumes wf: "wf_ndarray (transition_matrix hmm)"
    and sh: "shape (transition_matrix hmm) = [n, n]"
  shows "kernel_matrix hmm =
           table n n (\<lambda>j i. entry (transition_matrix hmm) i j - (if i = j then 1 else 0))"
proof -
  let ?t = "transition_matrix hmm"
  let ?d = "subtract ?t (identity n)"
  have lt: "length (flatten ?t) = n * n" using wf sh by (simp add: wf_ndarray_def)
  have li: "length (flatten (identity n)) = n * n"
    by (simp add: identity_table length_flatten_table)
  have shp: "num_cols ?d = n" "len_nd ?d = n" "num_cols ?t = n" "len_nd ?t = n"
    using sh by (simp_all add: subtract_def num_cols_def len_nd_def)
  have nci: "num_cols (identity n) = n" by (simp add: identity_def num_cols_def)
  have ent: "entry ?d i j = entry ?t i j - (if i = j then 1 else 0)"
    if "i < n" "j < n" for i j
  proof -
    from that have k: "i * n + j < n * n" by (rule index_in_table)
    then have "flatten ?d ! (i * n + j) =
        flatten ?t ! (i * n + j) - flatten (identity n) ! (i * n + j)"
      using lt li by (simp add: subtract_def)
    moreover have "flatten (identity n) ! (i * n + j) = (if i = j then 1 else 0)"
      using entry_table[OF that, of "\<lambda>i j. if i = j then 1 else 0"]
      by (simp add: identity_table[symmetric] entry_def nci)
    ultimately show ?thesis by (simp add: entry_def shp)
  qed
  have "kernel_matrix hmm = transpose_nd ?d"
    by (simp add: kernel_matrix_def shp)
  also have "\<dots> = table n n (\<lambda>j i. entry ?d i j)"
    by (simp add: transpose_table shp)
  also have "\<dots> = table n n (\<lambda>j i. entry ?t i j - (if i = j then 1 else 0))"
  proof -
    have "map (\<lambda>j. map (\<lambda>i. entry ?d i j) [0..<n]) [0..<n] =
          map (\<lambda>j. map (\<lambda>i. entry ?t i j - (if i = j then 1 else 0)) [0..<n]) [0..<n]"
      using ent by simp
    then show ?thesis by (simp only: table_def)
  qed
  finally show ?thesis .
qed

lemma in_kernel_iff:
  assumes wf: "wf_ndarray (transition_matrix hmm)"
    and sh: "shape (transition_matrix hmm) = [n, n]"
    and l: "length v = n"
  shows "all_zero (matvec (kernel_matrix hmm) v) \<longleftrightarrow>
           (\<forall>j<n. (\<Sum>i<n. entry (transition_matrix hmm) i j * v ! i) = v ! j)"
proof -
  let ?t = "transition_matrix hmm"
  have "(\<Sum>i<n. (entry ?t i j - (if i = j then 1 else 0)) * v ! i) =
        (\<Sum>i<n. entry ?t i j * v ! i) - v ! j" if "j < n" for j
  proof -
    have "(\<Sum>i<n. (entry ?t i j - (if i = j then 1 else 0)) * v ! i) =
          (\<Sum>i<n. entry ?t i j * v ! i) - (\<Sum>i<n. (if i = j then 1 else 0) * v ! i)"
      by (simp add: left_diff_distrib sum_subtractf)
    also have "(\<Sum>i<n. (if i = j then 1 else 0) * v ! i) = (\<Sum>i<n. if i = j then v ! i else 0)"
      by (intro sum.cong refl) simp
    also have "\<dots> = v ! j" using that by simp
    finally show ?thesis .
  qed
  then show ?thesis
    by (simp add: kernel_matrix_entries[OF wf sh] matvec_table[OF l] all_zero_map_upt)
qed

text \<open>When no entry of \<open>T\<close> is negative and no row of \<open>T\<close> sums to more than one, the entrywise
  absolute value of a vector of the kernel is in the kernel.\<close>

lemma abs_stationary:
  fixes t :: "nat \<Rightarrow> nat \<Rightarrow> real" and w :: "nat \<Rightarrow> real"
  assumes stat: "\<forall>j<n. (\<Sum>i<n. t i j * w i) = w j"
    and nonneg: "\<forall>i<n. \<forall>j<n. 0 \<le> t i j"
    and rows: "\<forall>i<n. (\<Sum>j<n. t i j) \<le> 1"
  shows "\<forall>j<n. (\<Sum>i<n. t i j * \<bar>w i\<bar>) = \<bar>w j\<bar>"
proof -
  define u where "u j = (\<Sum>i<n. t i j * \<bar>w i\<bar>) - \<bar>w j\<bar>" for j
  have u_nonneg: "0 \<le> u j" if j: "j < n" for j
  proof -
    have "\<bar>w j\<bar> = \<bar>\<Sum>i<n. t i j * w i\<bar>" using stat j by simp
    also have "\<dots> \<le> (\<Sum>i<n. \<bar>t i j * w i\<bar>)" by (rule sum_abs)
    also have "\<dots> = (\<Sum>i<n. t i j * \<bar>w i\<bar>)"
      using nonneg j by (intro sum.cong refl) (simp add: abs_mult)
    finally show ?thesis by (simp add: u_def)
  qed
  have "(\<Sum>j<n. u j) = (\<Sum>j<n. \<Sum>i<n. t i j * \<bar>w i\<bar>) - (\<Sum>j<n. \<bar>w j\<bar>)"
    by (simp add: u_def sum_subtractf)
  also have "(\<Sum>j<n. \<Sum>i<n. t i j * \<bar>w i\<bar>) = (\<Sum>i<n. \<Sum>j<n. t i j * \<bar>w i\<bar>)"
    by (rule sum.swap)
  also have "\<dots> = (\<Sum>i<n. (\<Sum>j<n. t i j) * \<bar>w i\<bar>)"
    by (simp add: sum_distrib_right)
  also have "\<dots> \<le> (\<Sum>i<n. \<bar>w i\<bar>)"
  proof (rule sum_mono)
    fix i assume "i \<in> {..<n}"
    with rows have "(\<Sum>j<n. t i j) \<le> 1" by simp
    then show "(\<Sum>j<n. t i j) * \<bar>w i\<bar> \<le> \<bar>w i\<bar>"
      using mult_right_mono[of "\<Sum>j<n. t i j" 1 "\<bar>w i\<bar>"] by simp
  qed
  finally have "(\<Sum>j<n. u j) \<le> 0" by simp
  moreover have "0 \<le> (\<Sum>j<n. u j)" by (rule sum_nonneg) (simp add: u_nonneg)
  ultimately have "(\<Sum>j<n. u j) = 0" by simp
  then have "\<forall>j\<in>{..<n}. u j = 0"
    using u_nonneg by (subst (asm) sum_nonneg_eq_0_iff) auto
  then show ?thesis by (simp add: u_def)
qed

lemma sum_list_pos_real:
  "\<forall>x\<in>set xs. 0 \<le> (x::real) \<Longrightarrow> \<exists>x\<in>set xs. 0 < x \<Longrightarrow> 0 < sum_list xs"
proof (induction xs)
  case Nil
  then show ?case by simp
next
  case (Cons a xs)
  then have a: "0 \<le> a" and rest: "0 \<le> sum_list xs"
    by (simp_all add: sum_list_nonneg_real)
  show ?case
  proof (cases "0 < a")
    case True
    with rest show ?thesis by simp
  next
    case False
    with Cons.prems(2) have "\<exists>x\<in>set xs. 0 < x" by auto
    with Cons have "0 < sum_list xs" by simp
    with a show ?thesis by simp
  qed
qed

lemma sum_list_neg_real:
  "\<forall>x\<in>set xs. (x::real) \<le> 0 \<Longrightarrow> \<exists>x\<in>set xs. x < 0 \<Longrightarrow> sum_list xs < 0"
proof -
  assume a: "\<forall>x\<in>set xs. x \<le> 0" "\<exists>x\<in>set xs. x < 0"
  then have "0 < sum_list (map uminus xs)"
    by (intro sum_list_pos_real) auto
  moreover have "sum_list (map uminus xs) = - sum_list xs"
    by (induction xs) simp_all
  ultimately show ?thesis by simp
qed

text \<open>Hence the single vector of a basis of the kernel has entries of one sign, and their
  sum is not zero.\<close>

lemma basis_vector_sign:
  assumes valid: "HiddenMarkovModel_init tm em = Inr hmm"
    and wf: "wf_ndarray tm"
    and rows: "\<forall>s\<in>set (sum_axis1 tm). s \<le> 1"
    and basis: "is_null_space_basis (kernel_matrix hmm) b"
    and one: "num_cols b = 1"
  shows "shape b = [len_nd tm, 1]" "length (flatten b) = len_nd tm"
    "(\<forall>x\<in>set (flatten b). 0 \<le> x) \<or> (\<forall>x\<in>set (flatten b). x \<le> 0)"
    "sum_list (flatten b) \<noteq> 0"
proof -
  let ?n = "len_nd tm"
  let ?w = "flatten b"
  let ?k = "kernel_matrix hmm"
  note D = init_Inr_D[OF valid]
  from D(3,4) have sh: "shape (transition_matrix hmm) = [?n, ?n]"
    by (simp add: D(1) shape_two_dimensional)
  from wf have wf': "wf_ndarray (transition_matrix hmm)" by (simp add: D(1))
  note in_k = in_kernel_iff[OF wf' sh, unfolded D(1)]
  have nk: "num_cols ?k = ?n"
    by (simp add: kernel_matrix_entries[OF wf' sh] table_def num_cols_def)
  from basis have wfb: "wf_ndarray b" and shb: "length (shape b) = 2" and lnb: "len_nd b = ?n"
    and cols: "\<And>c. length c = 1 \<Longrightarrow> all_zero (matvec ?k (matvec b c))"
    and uniq: "\<And>v. length v = ?n \<Longrightarrow> all_zero (matvec ?k v) \<Longrightarrow>
                 \<exists>!c. length c = 1 \<and> matvec b c = v"
    unfolding is_null_space_basis_def nk one by simp_all
  from shb lnb one show shape: "shape b = [?n, 1]"
    by (simp add: shape_two_dimensional)
  with wfb show len: "length ?w = ?n" by (simp add: wf_ndarray_def)
  have mv: "matvec b [x] = map (\<lambda>i. ?w ! i * x) [0..<?n]" for x
    using row_of_one_column[OF wfb shape] by (simp add: matvec_def lnb)
  have "matvec b [1] = ?w"
    using map_nth[of ?w] by (simp add: mv len)
  with cols[of "[1]"] have "all_zero (matvec ?k ?w)" by simp
  with in_k[OF len] have stat: "\<forall>j<?n. (\<Sum>i<?n. entry tm i j * ?w ! i) = ?w ! j" by simp
  have nonneg: "\<forall>i<?n. \<forall>j<?n. 0 \<le> entry tm i j"
    using entry_nonneg[OF wf D(3) D(5)] D(4) by simp
  have rsum: "\<forall>i<?n. (\<Sum>j<?n. entry tm i j) \<le> 1"
  proof (intro allI impI)
    fix i assume i: "i < ?n"
    then have "sum_list (row_of tm i) \<in> set (sum_axis1 tm)"
      by (simp add: sum_axis1_def)
    with rows have "sum_list (row_of tm i) \<le> 1" by blast
    then show "(\<Sum>j<?n. entry tm i j) \<le> 1"
      using row_of_entries[OF wf D(3) i] D(4)
      by (simp add: interv_sum_list_conv_sum_set_nat atLeast0LessThan)
  qed
  let ?a = "map abs ?w"
  have la: "length ?a = ?n" using len by simp
  from abs_stationary[OF stat nonneg rsum]
  have "\<forall>j<?n. (\<Sum>i<?n. entry tm i j * ?a ! i) = ?a ! j"
    using len by simp
  with in_k[OF la] have "all_zero (matvec ?k ?a)" by simp
  from uniq[OF la this] obtain c where "length c = 1" "matvec b c = ?a" by blast
  then obtain x where x: "matvec b [x] = ?a"
    using length_one[of c] by auto
  then have xi: "?w ! i * x = \<bar>?w ! i\<bar>" if "i < ?n" for i
    using that len by (simp add: mv list_eq_iff_nth_eq)
  have nz: "\<exists>i<?n. ?w ! i \<noteq> 0"
  proof (rule ccontr)
    assume "\<not> (\<exists>i<?n. ?w ! i \<noteq> 0)"
    then have z: "matvec b [y] = replicate ?n 0" for y
      by (simp add: mv list_eq_iff_nth_eq)
    have "all_zero (matvec ?k (matvec b [0]))" by (rule cols) simp
    then have "all_zero (matvec ?k (replicate ?n 0))" by (simp only: z)
    from uniq[OF _ this] z[of 0] z[of 1] have "[0::real] = [1]"
      by (metis length_Cons length_replicate list.size(3) One_nat_def)
    then show False by simp
  qed
  then obtain i0 where i0: "i0 < ?n" "?w ! i0 \<noteq> 0" by blast
  have "x = 1 \<or> x = - 1"
  proof (cases "0 \<le> ?w ! i0")
    case True
    with xi[OF i0(1)] have "?w ! i0 * x = ?w ! i0 * 1" by simp
    with i0(2) show ?thesis by (simp only: mult_cancel_left) simp
  next
    case False
    with xi[OF i0(1)] have "?w ! i0 * x = ?w ! i0 * (- 1)" by simp
    with i0(2) show ?thesis by (simp only: mult_cancel_left) simp
  qed
  then show sign: "(\<forall>y\<in>set ?w. 0 \<le> y) \<or> (\<forall>y\<in>set ?w. y \<le> 0)"
  proof
    assume "x = 1"
    with xi have "\<forall>i<?n. 0 \<le> ?w ! i" by (metis abs_ge_zero mult.right_neutral)
    then show ?thesis using len by (auto simp: in_set_conv_nth)
  next
    assume "x = - 1"
    with xi have "\<forall>i<?n. - (?w ! i) = \<bar>?w ! i\<bar>" by simp
    then have "\<forall>i<?n. ?w ! i \<le> 0" by (metis abs_ge_zero neg_0_le_iff_le)
    then show ?thesis using len by (auto simp: in_set_conv_nth)
  qed
  from i0 len have mem: "?w ! i0 \<in> set ?w" by simp
  from sign show "sum_list ?w \<noteq> 0"
  proof
    assume p: "\<forall>y\<in>set ?w. 0 \<le> y"
    with mem i0(2) have "\<exists>y\<in>set ?w. 0 < y" by (metis less_eq_real_def)
    with p have "0 < sum_list ?w" by (rule sum_list_pos_real)
    then show ?thesis by simp
  next
    assume p: "\<forall>y\<in>set ?w. y \<le> 0"
    with mem i0(2) have "\<exists>y\<in>set ?w. y < 0" by (metis less_eq_real_def)
    with p have "sum_list ?w < 0" by (rule sum_list_neg_real)
    then show ?thesis by simp
  qed
qed

text \<open>
  C5, as the code has it.  When the basis of the kernel has one column, the operation
  returns that column divided by the sum of its entries, with no correction of the sign.
  When the sum is not zero the returned entries are finite and sum to one; when moreover
  the entries of the column are all non-negative or all non-positive, the returned
  entries are all non-negative.  Both are the case for every validated model none of
  whose transition rows sums to more than one: the sum is not zero and the returned
  entries are all non-negative.
\<close>

theorem steady_state_dimension_one:
  assumes one: "shape (null_space (kernel_matrix hmm)) = [n, 1]"
    and fl: "flatten (null_space (kernel_matrix hmm)) = basis_vector"
  shows "steady_state_probabilities null_space hmm =
           Inr (map (\<lambda>x. float_div x (sum_list basis_vector)) basis_vector) \<and>
         (sum_list basis_vector \<noteq> 0 \<longrightarrow>
            steady_state_probabilities null_space hmm =
              Inr (map Fin (map (\<lambda>x. x / sum_list basis_vector) basis_vector)) \<and>
            sum_list (map (\<lambda>x. x / sum_list basis_vector) basis_vector) = 1) \<and>
         (sum_list basis_vector \<noteq> 0 \<and>
          ((\<forall>x\<in>set basis_vector. 0 \<le> x) \<or> (\<forall>x\<in>set basis_vector. x \<le> 0)) \<longrightarrow>
            (\<forall>y\<in>set (map (\<lambda>x. x / sum_list basis_vector) basis_vector). 0 \<le> y)) \<and>
         (HiddenMarkovModel_init tm em = Inr hmm \<and> wf_ndarray tm \<and>
          (\<forall>s\<in>set (sum_axis1 tm). s \<le> 1) \<and>
          is_null_space_basis (kernel_matrix hmm) (null_space (kernel_matrix hmm)) \<longrightarrow>
            sum_list basis_vector \<noteq> 0 \<and>
            (\<forall>y\<in>set (map (\<lambda>x. x / sum_list basis_vector) basis_vector). 0 \<le> y))"
proof -
  have eq: "steady_state_probabilities null_space hmm =
           Inr (map (\<lambda>x. float_div x (sum_list basis_vector)) basis_vector)"
    using one fl by (simp add: steady_state_probabilities_def Let_def)
  have fin: "steady_state_probabilities null_space hmm =
              Inr (map Fin (map (\<lambda>x. x / sum_list basis_vector) basis_vector))"
    if "sum_list basis_vector \<noteq> 0"
    using eq that by simp
  have total: "sum_list (map (\<lambda>x. x / sum_list basis_vector) basis_vector) = 1"
    if "sum_list basis_vector \<noteq> 0"
    using that by (simp add: sum_list_divide)
  have pos: "\<forall>y\<in>set (map (\<lambda>x. x / sum_list basis_vector) basis_vector). 0 \<le> y"
    if s: "(\<forall>x\<in>set basis_vector. 0 \<le> x) \<or> (\<forall>x\<in>set basis_vector. x \<le> 0)"
  proof (cases "\<forall>x\<in>set basis_vector. 0 \<le> x")
    case True
    then have "0 \<le> sum_list basis_vector" by (rule sum_list_nonneg_real)
    with True show ?thesis by (auto intro: divide_nonneg_nonneg)
  next
    case False
    with s have np: "\<forall>x\<in>set basis_vector. x \<le> 0" by blast
    then have "sum_list basis_vector \<le> 0" by (rule sum_list_nonpos_real)
    with np show ?thesis by (auto intro: divide_nonpos_nonpos)
  qed
  have stochastic: "sum_list basis_vector \<noteq> 0 \<and>
      (\<forall>y\<in>set (map (\<lambda>x. x / sum_list basis_vector) basis_vector). 0 \<le> y)"
    if h: "HiddenMarkovModel_init tm em = Inr hmm \<and> wf_ndarray tm \<and>
          (\<forall>s\<in>set (sum_axis1 tm). s \<le> 1) \<and>
          is_null_space_basis (kernel_matrix hmm) (null_space (kernel_matrix hmm))"
  proof -
    from one have nc: "num_cols (null_space (kernel_matrix hmm)) = 1"
      by (simp add: num_cols_def)
    from h have v: "HiddenMarkovModel_init tm em = Inr hmm" and w: "wf_ndarray tm"
      and r: "\<forall>s\<in>set (sum_axis1 tm). s \<le> 1"
      and b: "is_null_space_basis (kernel_matrix hmm) (null_space (kernel_matrix hmm))"
      by simp_all
    from basis_vector_sign(3,4)[OF v w r b nc] fl pos show ?thesis by simp
  qed
  from eq fin total pos stochastic show ?thesis by blast
qed

text \<open>The three-state model of the repository's tests, with the basis vector the
  null-space routine may as well return with negative entries.\<close>

definition three_state_hmm :: HiddenMarkovModel where
  "three_state_hmm =
     \<lparr>transition_matrix =
        NDArray [3, 3] [4 / 10, 4 / 10, 2 / 10, 2 / 10, 4 / 10, 4 / 10, 1 / 10, 3 / 10, 6 / 10],
      sampling_probabilities = NDArray [3, 1] [1, 1, 1]\<rparr>"

lemma three_state_hmm_valid:
  "HiddenMarkovModel_init
     (NDArray [3, 3] [4 / 10, 4 / 10, 2 / 10, 2 / 10, 4 / 10, 4 / 10, 1 / 10, 3 / 10, 6 / 10])
     (NDArray [3, 1] [1, 1, 1]) = Inr three_state_hmm"
  by (simp add: HiddenMarkovModel_init_def valid_tranisition_matrix_def
      valid_sampling_probabilities_def sum_axis1_def row_of_def len_nd_def num_cols_def
      three_state_hmm_def upt_rec)

lemma three_state_kernel:
  "kernel_matrix three_state_hmm =
     NDArray [3, 3] [- 3 / 5, 1 / 5, 1 / 10, 2 / 5, - 3 / 5, 3 / 10, 1 / 5, 2 / 5, - 2 / 5]"
  by (simp add: three_state_hmm_def nd_simps upt_rec)

lemma length_three: "length v = 3 \<Longrightarrow> \<exists>a b c. v = [a, b, c]"
  by (metis (no_types) length_0_conv length_Suc_conv numeral_3_eq_3)

lemma three_state_basis:
  "is_null_space_basis
     (NDArray [3, 3] [- 3 / 5, 1 / 5, 1 / 10, 2 / 5, - 3 / 5, 3 / 10, 1 / 5, 2 / 5, - 2 / 5])
     (NDArray [3, 1] [- 6, - 11, - 14])"
  unfolding is_null_space_basis_def
proof (intro conjI allI impI)
  fix v :: "real list"
  assume "length v =
            num_cols (NDArray [3, 3] [- 3 / 5, 1 / 5, 1 / 10, 2 / 5, - 3 / 5, 3 / 10, 1 / 5, 2 / 5, - 2 / 5]) \<and>
          all_zero
            (matvec (NDArray [3, 3] [- 3 / 5, 1 / 5, 1 / 10, 2 / 5, - 3 / 5, 3 / 10, 1 / 5, 2 / 5, - 2 / 5]) v)"
  then obtain a b c where v: "v = [a, b, c]"
    and e: "b + c / 2 = 3 * a" "2 * a / 5 + (3 * c / 10 - 3 * b / 5) = 0"
    using length_three[of v] by (auto simp: nd_simps upt_rec)
  from e have k: "b = 11 * a / 6" "c = 14 * a / 6" by argo+
  show "\<exists>!c. length c = num_cols (NDArray [3, 1] [- 6, - 11, - 14]) \<and>
              matvec (NDArray [3, 1] [- 6, - 11, - 14]) c = v"
  proof (rule ex1I[of _ "[- a / 6]"])
    show "length [- a / 6] = num_cols (NDArray [3, 1] [- 6, - 11, - 14]) \<and>
          matvec (NDArray [3, 1] [- 6, - 11, - 14]) [- a / 6] = v"
      using v k by (simp add: nd_simps upt_rec)
  next
    fix c
    assume "length c = num_cols (NDArray [3, 1] [- 6, - 11, - 14]) \<and>
            matvec (NDArray [3, 1] [- 6, - 11, - 14]) c = v"
    then show "c = [- a / 6]"
      using v length_one[of c] by (auto simp: nd_simps upt_rec)
  qed
next
  fix c :: "real list"
  assume "length c = num_cols (NDArray [3, 1] [- 6, - 11, - 14])"
  then show "all_zero
      (matvec (NDArray [3, 3] [- 3 / 5, 1 / 5, 1 / 10, 2 / 5, - 3 / 5, 3 / 10, 1 / 5, 2 / 5, - 2 / 5])
         (matvec (NDArray [3, 1] [- 6, - 11, - 14]) c))"
    using length_one[of c] by (auto simp: nd_simps upt_rec)
qed (simp_all add: nd_simps)

theorem steady_state_dimension_one_witness:
  "HiddenMarkovModel_init
     (NDArray [3, 3] [4 / 10, 4 / 10, 2 / 10, 2 / 10, 4 / 10, 4 / 10, 1 / 10, 3 / 10, 6 / 10])
     (NDArray [3, 1] [1, 1, 1]) = Inr three_state_hmm \<and>
   sum_axis1
     (NDArray [3, 3] [4 / 10, 4 / 10, 2 / 10, 2 / 10, 4 / 10, 4 / 10, 1 / 10, 3 / 10, 6 / 10]) =
     [1, 1, 1] \<and>
   is_null_space_basis (kernel_matrix three_state_hmm) (NDArray [3, 1] [- 6, - 11, - 14]) \<and>
   steady_state_probabilities (\<lambda>m. NDArray [3, 1] [- 6, - 11, - 14]) three_state_hmm =
     Inr [Fin (6 / 31), Fin (11 / 31), Fin (14 / 31)] \<and>
   sum_list [6 / 31, 11 / 31, 14 / 31 :: real] = 1"
proof -
  have rows: "sum_axis1
     (NDArray [3, 3] [4 / 10, 4 / 10, 2 / 10, 2 / 10, 4 / 10, 4 / 10, 1 / 10, 3 / 10, 6 / 10]) =
     [1, 1, 1]"
    by (simp add: sum_axis1_def row_of_def len_nd_def num_cols_def upt_rec)
  show ?thesis
    using steady_state_dimension_one
          [of "\<lambda>m. NDArray [3, 1] [- 6, - 11, - 14]" three_state_hmm 3 "[- 6, - 11, - 14]"
              "NDArray [3, 3] [4 / 10, 4 / 10, 2 / 10, 2 / 10, 4 / 10, 4 / 10, 1 / 10, 3 / 10, 6 / 10]"
              "NDArray [3, 1] [1, 1, 1]"]
      three_state_hmm_valid three_state_basis rows
    by (simp add: three_state_kernel wf_ndarray_def)
qed

text \<open>
  C5, as the specification has it, fails on the model inside the tolerance: the kernel has
  dimension one, the returned vector is the basis vector over its sum, and its first entry
  is negative.
\<close>

theorem steady_state_sign_counterexample:
  "HiddenMarkovModel_init
     (NDArray [2, 2] [1 + 1 / 524288, 1 / 524288, 1 / 1048576, 1 + 1 / 1048576])
     (NDArray [2, 2] [1, 0, 0, 1]) = Inr tolerance_hmm \<and>
   is_null_space_basis (kernel_matrix tolerance_hmm) (NDArray [2, 1] [1, - 2]) \<and>
   shape (NDArray [2, 1] [1, - 2]) = [2, 1] \<and>
   steady_state_probabilities (\<lambda>m. NDArray [2, 1] [1, - 2]) tolerance_hmm =
     Inr [Fin (- 1), Fin 2] \<and>
   \<not> float_le (Fin 0) (Fin (- 1))"
  using tolerance_hmm_valid tolerance_basis
  by (simp add: tolerance_kernel steady_state_probabilities_def)

subsection \<open>A kernel of dimension two or more\<close>

lemma kernel_matrix_identity:
  assumes "transition_matrix hmm = identity n"
  shows "kernel_matrix hmm = table n n (\<lambda>j i. 0)"
proof -
  let ?d = "subtract (identity n) (identity n)"
  have len: "length (flatten (identity n)) = n * n"
    by (simp add: identity_table length_flatten_table)
  have zero: "k < n * n \<Longrightarrow> flatten ?d ! k = 0" for k
    using len by (simp add: subtract_def)
  have shp: "num_cols ?d = n" "len_nd ?d = n"
    by (simp_all add: subtract_def identity_def num_cols_def len_nd_def)
  have ent: "i < n \<Longrightarrow> j < n \<Longrightarrow> entry ?d i j = 0" for i j
    using zero[of "i * n + j"] index_in_table[of i n j n] by (simp add: entry_def shp)
  have "kernel_matrix hmm = transpose_nd ?d"
    using assms by (simp add: kernel_matrix_def identity_def len_nd_def)
  also have "\<dots> = table n n (\<lambda>j i. entry ?d i j)"
    by (simp add: transpose_table shp)
  also have "\<dots> = table n n (\<lambda>j i. 0)"
  proof -
    have "map (\<lambda>j. map (\<lambda>i. entry ?d i j) [0..<n]) [0..<n] =
          map (\<lambda>j. map (\<lambda>i. 0) [0..<n]) [0..<n]"
      using ent by simp
    then show ?thesis by (simp only: table_def)
  qed
  finally show ?thesis .
qed

lemma matvec_zero_table: "all_zero (matvec (table n n (\<lambda>j i. 0)) v)"
proof -
  have "i < n \<Longrightarrow> sum_list (map2 (*) (row_of (table n n (\<lambda>j i. 0)) i) v) = 0" for i
    by (simp add: row_of_table) (rule sum_list_mul_zero_row, auto)
  then show ?thesis
    by (auto simp: all_zero_def matvec_def table_def len_nd_def)
qed

lemma basis_of_everything_has_two_columns:
  assumes n: "2 \<le> n"
    and b: "is_null_space_basis (table n n (\<lambda>j i. 0)) b"
  shows "1 < num_cols b"
proof (rule ccontr)
  assume "\<not> 1 < num_cols b"
  then have k: "num_cols b = 0 \<or> num_cols b = 1" by linarith
  let ?m = "table n n (\<lambda>j i. 0)"
  have nc: "num_cols ?m = n" by (simp add: table_def num_cols_def)
  from b have wf: "wf_ndarray b" and sh: "length (shape b) = 2" and ln: "len_nd b = n"
    and span: "\<And>v. length v = n \<Longrightarrow> \<exists>c. length c = num_cols b \<and> matvec b c = v"
    unfolding is_null_space_basis_def nc using matvec_zero_table[of n] by blast+
  from sh ln have shape: "shape b = [n, num_cols b]"
    by (cases "shape b") (auto simp: len_nd_def num_cols_def length_Suc_conv)
  let ?e0 = "(replicate n 0)[0 := 1::real]"
  let ?e1 = "(replicate n 0)[1 := 1::real]"
  from span[of ?e0] obtain c0 where c0: "length c0 = num_cols b" "matvec b c0 = ?e0" by auto
  from span[of ?e1] obtain c1 where c1: "length c1 = num_cols b" "matvec b c1 = ?e1" by auto
  have at: "i < n \<Longrightarrow> matvec b c ! i = sum_list (map2 (*) (row_of b i) c)" for i c
    by (simp add: matvec_def ln)
  from k show False
  proof
    assume z: "num_cols b = 0"
    with c0 have "c0 = []" by simp
    with at[of 0 c0] n have "matvec b c0 ! 0 = 0" by simp
    with c0(2) n show False by simp
  next
    assume o: "num_cols b = 1"
    with shape have s1: "shape b = [n, 1]" by simp
    from o c0 obtain x where x: "c0 = [x]" by (auto simp: length_Suc_conv)
    from o c1 obtain y where y: "c1 = [y]" by (auto simp: length_Suc_conv)
    have r: "i < n \<Longrightarrow> matvec b [z] ! i = flatten b ! i * z" for i z
      using at[of i "[z]"] row_of_one_column[OF wf s1, of i] by simp
    from r[of 0 x] c0(2) x n have a: "flatten b ! 0 * x = 1" by simp
    from r[of 1 x] c0(2) x n have b1: "flatten b ! 1 * x = 0" by simp
    from r[of 1 y] c1(2) y n have c: "flatten b ! 1 * y = 1" by simp
    from a have "x \<noteq> 0" by auto
    with b1 have "flatten b ! 1 = 0" by simp
    with c show False by simp
  qed
qed

lemma sum_axis1_identity: "sum_axis1 (identity n) = replicate n 1"
proof -
  have "i < n \<Longrightarrow> sum_list (map (\<lambda>j. if i = j then 1 else 0) [0..<n]) = (1::real)" for i
    by (simp add: interv_sum_list_conv_sum_set_nat)
  then have "i < n \<Longrightarrow> sum_list (row_of (identity n) i) = 1" for i
    by (simp add: identity_table row_of_table)
  then show ?thesis
    by (auto simp: sum_axis1_def identity_def len_nd_def intro!: replicate_eqI)
qed

lemma identity_valid: "valid_tranisition_matrix (identity n) = Inr ()"
proof -
  have "\<forall>x\<in>set (flatten (identity n)). 0 \<le> x"
    by (auto simp: identity_def)
  then show ?thesis
    by (simp add: valid_tranisition_matrix_def check_entries_eq check_row_sums_eq
        sum_axis1_identity) (simp add: identity_def)
qed

text \<open>
  C6.  When the basis of the kernel has more than one column the operation raises the
  \<^verbatim>\<open>ValueError\<close> that carries the basis.  For \<open>n \<ge> 2\<close> the identity matrix of size \<open>n\<close>
  passes the validator of the transition matrix, its kernel matrix is zero, every basis
  of that kernel has at least two columns, and the operation raises.
\<close>

theorem steady_state_not_unique:
  "(length (shape (null_space (kernel_matrix hmm))) = 2 \<and>
    1 < num_cols (null_space (kernel_matrix hmm)) \<longrightarrow>
      steady_state_probabilities null_space hmm =
        Inl (ValueError_eigen_basis (null_space (kernel_matrix hmm)))) \<and>
   (2 \<le> n \<and> transition_matrix hmm = identity n \<and>
    is_null_space_basis (kernel_matrix hmm) (null_space (kernel_matrix hmm)) \<longrightarrow>
      steady_state_probabilities null_space hmm =
        Inl (ValueError_eigen_basis (null_space (kernel_matrix hmm)))) \<and>
   valid_tranisition_matrix (identity n) = Inr ()"
proof (intro conjI impI)
  show general: "steady_state_probabilities null_space hmm =
        Inl (ValueError_eigen_basis (null_space (kernel_matrix hmm)))"
    if "length (shape (null_space (kernel_matrix hmm))) = 2 \<and>
        1 < num_cols (null_space (kernel_matrix hmm))"
    using that by (simp add: steady_state_probabilities_def Let_def num_cols_def)
  show "steady_state_probabilities null_space hmm =
        Inl (ValueError_eigen_basis (null_space (kernel_matrix hmm)))"
    if h: "2 \<le> n \<and> transition_matrix hmm = identity n \<and>
        is_null_space_basis (kernel_matrix hmm) (null_space (kernel_matrix hmm))"
  proof -
    from h have b: "is_null_space_basis (table n n (\<lambda>j i. 0)) (null_space (kernel_matrix hmm))"
      using kernel_matrix_identity[of hmm n] by simp
    with h have "1 < num_cols (null_space (kernel_matrix hmm))"
      using basis_of_everything_has_two_columns by blast
    moreover from b have "length (shape (null_space (kernel_matrix hmm))) = 2"
      by (simp add: is_null_space_basis_def)
    ultimately show ?thesis using general by blast
  qed
  show "valid_tranisition_matrix (identity n) = Inr ()" by (rule identity_valid)
qed

text \<open>The model of two absorbing states of the repository's tests.\<close>

definition absorbing_hmm :: HiddenMarkovModel where
  "absorbing_hmm =
     \<lparr>transition_matrix = NDArray [2, 2] [1, 0, 0, 1],
      sampling_probabilities = NDArray [2, 2] [4 / 10, 6 / 10, 7 / 10, 3 / 10]\<rparr>"

lemma absorbing_hmm_valid:
  "HiddenMarkovModel_init (NDArray [2, 2] [1, 0, 0, 1])
     (NDArray [2, 2] [4 / 10, 6 / 10, 7 / 10, 3 / 10]) = Inr absorbing_hmm"
  by (simp add: HiddenMarkovModel_init_def valid_tranisition_matrix_def
      valid_sampling_probabilities_def sum_axis1_def row_of_def len_nd_def num_cols_def
      absorbing_hmm_def upt_rec)

lemma absorbing_kernel: "kernel_matrix absorbing_hmm = NDArray [2, 2] [0, 0, 0, 0]"
  by (simp add: absorbing_hmm_def nd_simps upt_rec)

lemma absorbing_basis:
  "is_null_space_basis (NDArray [2, 2] [0, 0, 0, 0]) (NDArray [2, 2] [1, 0, 0, 1])"
  unfolding is_null_space_basis_def
proof (intro conjI allI impI)
  fix v :: "real list"
  assume "length v = num_cols (NDArray [2, 2] [0, 0, 0, 0]) \<and>
          all_zero (matvec (NDArray [2, 2] [0, 0, 0, 0]) v)"
  then obtain a b where v: "v = [a, b]"
    using length_two[of v] by (auto simp: nd_simps)
  show "\<exists>!c. length c = num_cols (NDArray [2, 2] [1, 0, 0, 1]) \<and>
              matvec (NDArray [2, 2] [1, 0, 0, 1]) c = v"
  proof (rule ex1I[of _ "[a, b]"])
    show "length [a, b] = num_cols (NDArray [2, 2] [1, 0, 0, 1]) \<and>
          matvec (NDArray [2, 2] [1, 0, 0, 1]) [a, b] = v"
      using v by (simp add: nd_simps upt_rec)
  next
    fix c
    assume "length c = num_cols (NDArray [2, 2] [1, 0, 0, 1]) \<and>
            matvec (NDArray [2, 2] [1, 0, 0, 1]) c = v"
    then show "c = [a, b]"
      using v length_two[of c] by (auto simp: nd_simps upt_rec)
  qed
next
  fix c :: "real list"
  assume "length c = num_cols (NDArray [2, 2] [1, 0, 0, 1])"
  then show "all_zero (matvec (NDArray [2, 2] [0, 0, 0, 0]) (matvec (NDArray [2, 2] [1, 0, 0, 1]) c))"
    using length_two[of c] by (auto simp: nd_simps upt_rec)
qed (simp_all add: nd_simps)

theorem steady_state_not_unique_witness:
  "HiddenMarkovModel_init (NDArray [2, 2] [1, 0, 0, 1])
     (NDArray [2, 2] [4 / 10, 6 / 10, 7 / 10, 3 / 10]) = Inr absorbing_hmm \<and>
   transition_matrix absorbing_hmm = identity 2 \<and>
   is_null_space_basis (kernel_matrix absorbing_hmm) (NDArray [2, 2] [1, 0, 0, 1]) \<and>
   steady_state_probabilities (\<lambda>m. NDArray [2, 2] [1, 0, 0, 1]) absorbing_hmm =
     Inl (ValueError_eigen_basis (NDArray [2, 2] [1, 0, 0, 1]))"
  using steady_state_not_unique [of "\<lambda>m. NDArray [2, 2] [1, 0, 0, 1]" absorbing_hmm 2]
    absorbing_hmm_valid absorbing_basis
  by (simp add: absorbing_kernel) (simp add: absorbing_hmm_def identity_def upt_rec)

section \<open>The two-state model of the tests\<close>

definition test_hmm :: HiddenMarkovModel where
  "test_hmm =
     \<lparr>transition_matrix = NDArray [2, 2] [8 / 10, 2 / 10, 5 / 10, 5 / 10],
      sampling_probabilities = NDArray [2, 2] [4 / 10, 6 / 10, 7 / 10, 3 / 10]\<rparr>"

lemma test_hmm_valid:
  "HiddenMarkovModel_init (NDArray [2, 2] [8 / 10, 2 / 10, 5 / 10, 5 / 10])
     (NDArray [2, 2] [4 / 10, 6 / 10, 7 / 10, 3 / 10]) = Inr test_hmm"
  by (simp add: HiddenMarkovModel_init_def valid_tranisition_matrix_def
      valid_sampling_probabilities_def sum_axis1_def row_of_def len_nd_def num_cols_def
      test_hmm_def upt_rec)

lemma test_kernel: "kernel_matrix test_hmm = NDArray [2, 2] [- 1 / 5, 1 / 2, 1 / 5, - 1 / 2]"
  by (simp add: test_hmm_def nd_simps upt_rec)

lemma dot_two_then_zeros:
  "length r = Suc (Suc j) \<Longrightarrow>
     sum_list (map2 (*) r (x # y # replicate j (0::real))) = r ! 0 * x + r ! 1 * y"
proof -
  assume "length r = Suc (Suc j)"
  then obtain a b rs where r: "r = a # b # rs"
    by (metis length_Suc_conv)
  have "set (replicate j (0::real)) \<subseteq> {0}" by auto
  then have "sum_list (map2 (*) (replicate j (0::real)) rs) = 0"
    by (rule sum_list_mul_zero_row)
  moreover have "map2 (*) rs (replicate j (0::real)) = map2 (*) (replicate j (0::real)) rs"
    by (induction rs arbitrary: j) (auto simp: zip_replicate2 zip_replicate1 split: nat.splits) 
  ultimately show ?thesis using r by simp
qed

lemma test_basis:
  "is_null_space_basis (NDArray [2, 2] [- 1 / 5, 1 / 2, 1 / 5, - 1 / 2]) (NDArray [2, 1] [5, 2])"
  unfolding is_null_space_basis_def
proof (intro conjI allI impI)
  fix v :: "real list"
  assume "length v = num_cols (NDArray [2, 2] [- 1 / 5, 1 / 2, 1 / 5, - 1 / 2]) \<and>
          all_zero (matvec (NDArray [2, 2] [- 1 / 5, 1 / 2, 1 / 5, - 1 / 2]) v)"
  then obtain a b where v: "v = [a, b]" and k: "- a / 5 + b / 2 = 0"
    using length_two[of v] by (auto simp: nd_simps upt_rec)
  show "\<exists>!c. length c = num_cols (NDArray [2, 1] [5, 2]) \<and>
              matvec (NDArray [2, 1] [5, 2]) c = v"
  proof (rule ex1I[of _ "[a / 5]"])
    show "length [a / 5] = num_cols (NDArray [2, 1] [5, 2]) \<and>
          matvec (NDArray [2, 1] [5, 2]) [a / 5] = v"
      using v k by (simp add: nd_simps upt_rec)
  next
    fix c
    assume "length c = num_cols (NDArray [2, 1] [5, 2]) \<and>
            matvec (NDArray [2, 1] [5, 2]) c = v"
    then show "c = [a / 5]"
      using v length_one[of c] by (auto simp: nd_simps upt_rec)
  qed
next
  fix c :: "real list"
  assume "length c = num_cols (NDArray [2, 1] [5, 2])"
  then show "all_zero (matvec (NDArray [2, 2] [- 1 / 5, 1 / 2, 1 / 5, - 1 / 2])
                (matvec (NDArray [2, 1] [5, 2]) c))"
    using length_one[of c] by (auto simp: nd_simps upt_rec)
qed (simp_all add: nd_simps)

text \<open>Every basis of the kernel of this model's kernel matrix is one column, a non-zero
  multiple of \<open>(5, 2)\<close>.\<close>

lemma test_basis_shape:
  assumes b: "is_null_space_basis (NDArray [2, 2] [- 1 / 5, 1 / 2, 1 / 5, - 1 / 2]) b"
  shows "\<exists>t. t \<noteq> 0 \<and> b = NDArray [2, 1] [5 * t, 2 * t]"
proof -
  define m where "m = NDArray [2, 2] [- 1 / 5, 1 / 2, 1 / 5, - 1 / 2]"
  let ?k = "num_cols b"
  let ?r0 = "row_of b 0"
  let ?r1 = "row_of b 1"
  have in_kernel: "all_zero (matvec m [x, y]) \<longleftrightarrow> y = 2 * x / 5" for x y
    by (auto simp: m_def nd_simps upt_rec)
  from b have wf: "wf_ndarray b" and sh: "length (shape b) = 2" and ln: "len_nd b = 2"
    and cols: "\<And>c. length c = ?k \<Longrightarrow> all_zero (matvec m (matvec b c))"
    and uniq: "\<And>v. length v = 2 \<Longrightarrow> all_zero (matvec m v) \<Longrightarrow>
                 \<exists>!c. length c = ?k \<and> matvec b c = v"
    unfolding is_null_space_basis_def m_def by (simp_all add: num_cols_def)
  from sh ln have shape: "shape b = [2, ?k]"
    by (cases "shape b") (auto simp: len_nd_def num_cols_def length_Suc_conv)
  with wf have len: "length (flatten b) = 2 * ?k" by (simp add: wf_ndarray_def)
  have mv: "matvec b c = [sum_list (map2 (*) ?r0 c), sum_list (map2 (*) ?r1 c)]" for c
    by (simp add: matvec_def ln upt_rec)
  have lr: "length ?r0 = ?k" "length ?r1 = ?k"
    using len by (simp_all add: row_of_def)
  have zero_in: "all_zero (matvec m [0, 0])" by (simp add: in_kernel)
  have zero_img: "matvec b (replicate ?k 0) = [0, 0]"
  proof -
    have "sum_list (map2 (*) r (replicate ?k (0::real))) = 0" for r
      by (induction r arbitrary: b) (auto simp: zip_replicate2 sum_list_triv comp_def)
    then show ?thesis by (simp add: mv)
  qed
  have only_zero: "c = replicate ?k 0" if "length c = ?k" "matvec b c = [0, 0]" for c
    using uniq[of "[0, 0]"] zero_in zero_img that by (metis length_replicate length_Cons list.size(3) numeral_2_eq_2)
  have k_pos: "?k \<noteq> 0"
  proof
    assume z: "?k = 0"
    from uniq[of "[5, 2]"] obtain c where "length c = ?k" "matvec b c = [5, 2]"
      by (auto simp: in_kernel)
    with z show False by (simp add: mv)
  qed
  have k_small: "?k < 2"
  proof (rule ccontr)
    assume "\<not> ?k < 2"
    then obtain j where j: "?k = Suc (Suc j)"
      by (metis less_2_cases_iff old.nat.exhaust)
    let ?p = "?r0 ! 0"
    let ?q = "?r0 ! 1"
    define x y where "x = (if ?p = 0 \<and> ?q = 0 then 1 else ?q)"
      and "y = (if ?p = 0 \<and> ?q = 0 then 0 else - ?p)"
    let ?c = "x # y # replicate j 0"
    have lc: "length ?c = ?k" by (simp add: j)
    have d0: "sum_list (map2 (*) ?r0 ?c) = 0"
      using lr(1) by (simp add: dot_two_then_zeros j x_def y_def)
    from cols[OF lc] have "all_zero (matvec m [sum_list (map2 (*) ?r0 ?c), sum_list (map2 (*) ?r1 ?c)])"
      by (simp only: mv)
    with d0 have "sum_list (map2 (*) ?r1 ?c) = 0" by (simp add: in_kernel)
    with d0 have "matvec b ?c = [0, 0]" by (simp only: mv)
    from only_zero[OF lc this] have "x = 0 \<and> y = 0" by (simp add: j)
    then show False by (auto simp: x_def y_def split: if_splits)
  qed
  from k_pos k_small have k1: "?k = 1" by linarith
  with len obtain a c where fl: "flatten b = [a, c]"
    using length_two[of "flatten b"] by auto
  have rows: "?r0 = [a]" "?r1 = [c]" "row_of b (Suc 0) = [c]"
    using fl k1 by (simp_all add: row_of_def)
  from cols[of "[1]"] have c_eq: "c = 2 * a / 5"
    using k1 by (simp add: mv rows in_kernel)
  have "a \<noteq> 0"
  proof
    assume "a = 0"
    with c_eq have "matvec b [1] = [0, 0]" by (simp add: mv rows)
    from only_zero[OF _ this] k1 show False by simp
  qed
  moreover have "b = NDArray [2, 1] [5 * (a / 5), 2 * (a / 5)]"
    using shape k1 fl c_eq by (cases b) simp
  ultimately show ?thesis by (intro exI[of _ "a / 5"]) simp
qed

text \<open>
  C9.  For the two-state model with transition matrix \<open>[[0.8, 0.2], [0.5, 0.5]]\<close> and
  sampling probabilities \<open>[[0.4, 0.6], [0.7, 0.3]]\<close>, whatever basis of the kernel the
  null-space routine returns, the steady-state probabilities are \<open>[5/7, 2/7]\<close> and the
  marbles \<open>[0, 0, 1, 0]\<close> are decoded to the bags \<open>[0, 0, 0, 0]\<close>.
\<close>

theorem test_model_decoding:
  assumes "is_null_space_basis (kernel_matrix test_hmm) (null_space (kernel_matrix test_hmm))"
  shows "HiddenMarkovModel_init (NDArray [2, 2] [8 / 10, 2 / 10, 5 / 10, 5 / 10])
           (NDArray [2, 2] [4 / 10, 6 / 10, 7 / 10, 3 / 10]) = Inr test_hmm \<and>
         steady_state_probabilities null_space test_hmm = Inr [Fin (5 / 7), Fin (2 / 7)] \<and>
         viterbi null_space test_hmm [0, 0, 1, 0] = Inr [0, 0, 0, 0]"
proof -
  from assms obtain t where t: "t \<noteq> 0"
    and b: "null_space (kernel_matrix test_hmm) = NDArray [2, 1] [5 * t, 2 * t]"
    using test_basis_shape by (auto simp: test_kernel)
  have "5 * t / (5 * t + 2 * t) = 5 / 7" "2 * t / (5 * t + 2 * t) = 2 / 7"
    using t by (simp_all add: field_simps)
  then have steady: "steady_state_probabilities null_space test_hmm =
      Inr [Fin (5 / 7), Fin (2 / 7)]"
    using t b by (simp add: steady_state_probabilities_def)
  have "viterbi null_space test_hmm [0, 0, 1, 0] = Inr [0, 0, 0, 0]"
    unfolding viterbi_def viterbi_forward_def steady
    by (simp add: test_hmm_def transpose_getitem_def py_index_def
      broadcast_mul_def bag_step_def getitem2_def argmax_def column_of_def entry_def len_nd_def
      num_cols_def upt_rec)
  with steady test_hmm_valid show ?thesis by simp
qed

theorem test_model_decoding_witness:
  "is_null_space_basis (kernel_matrix test_hmm) (NDArray [2, 1] [5, 2]) \<and>
   steady_state_probabilities (\<lambda>m. NDArray [2, 1] [5, 2]) test_hmm =
     Inr [Fin (5 / 7), Fin (2 / 7)] \<and>
   viterbi (\<lambda>m. NDArray [2, 1] [5, 2]) test_hmm [0, 0, 1, 0] = Inr [0, 0, 0, 0]"
  using test_model_decoding [of "\<lambda>m. NDArray [2, 1] [5, 2]"] test_basis
  by (simp add: test_kernel)

section \<open>Negative marbles\<close>

text \<open>A marble \<open>v\<close> with \<open>- m \<le> v \<le> - 1\<close> replaced by \<open>m + v\<close>, every other marble
  left as it is.\<close>

definition wrap_marble :: "nat \<Rightarrow> int \<Rightarrow> int" where
  "wrap_marble m v = (if - int m \<le> v \<and> v \<le> - 1 then int m + v else v)"

lemma py_index_wrap: "py_index m (wrap_marble m v) = py_index m v"
  by (simp add: py_index_def wrap_marble_def)

lemma getitem2_wrap: "getitem2 a i (wrap_marble (num_cols a) j) = getitem2 a i j"
  by (simp add: getitem2_def py_index_wrap cong: sum.case_cong)

lemma transpose_getitem_wrap:
  "transpose_getitem a (wrap_marble (num_cols a) j) = transpose_getitem a j"
  by (simp add: transpose_getitem_def py_index_wrap)

lemma bag_step_wrap:
  "bag_step hmm probabilities (wrap_marble (num_cols (sampling_probabilities hmm)) marble) bag =
   bag_step hmm probabilities marble bag"
  by (simp add: bag_step_def getitem2_wrap cong: sum.case_cong prod.case_cong)

lemma bags_loop_wrap:
  "bags_loop hmm probabilities (wrap_marble (num_cols (sampling_probabilities hmm)) marble) bags =
   bags_loop hmm probabilities marble bags"
  by (induction bags) (simp_all add: bag_step_wrap cong: sum.case_cong)

lemma marbles_loop_wrap:
  "marbles_loop hmm num_bags (map (wrap_marble (num_cols (sampling_probabilities hmm))) rest)
     probabilities parents_by_marble =
   marbles_loop hmm num_bags rest probabilities parents_by_marble"
  by (induction rest arbitrary: probabilities parents_by_marble) (simp_all add: bags_loop_wrap cong: sum.case_cong)

lemma viterbi_forward_wrap:
  "sequence \<noteq> [] \<Longrightarrow>
   viterbi_forward null_space hmm
     (map (wrap_marble (num_cols (sampling_probabilities hmm))) sequence) =
   viterbi_forward null_space hmm sequence"
  by (simp add: viterbi_forward_def hd_map map_tl[symmetric] transpose_getitem_wrap marbles_loop_wrap
      cong: sum.case_cong)

text \<open>
  C10.  The marbles index the columns of the sampling probabilities with numpy's negative
  indices: for \<open>m\<close> columns, decoding a sequence gives exactly the result of decoding the
  sequence in which every marble \<open>v\<close> with \<open>- m \<le> v \<le> - 1\<close> is replaced by \<open>m + v\<close>; such
  a marble is no cause of failure.
\<close>

theorem viterbi_negative_marbles:
  "viterbi null_space hmm (map (wrap_marble (num_cols (sampling_probabilities hmm))) sequence) =
   viterbi null_space hmm sequence"
  by (cases "sequence = []") (simp_all add: viterbi_def viterbi_forward_wrap)

lemma test_decoding_fixed:
  "viterbi (\<lambda>m. NDArray [2, 1] [5, 2]) test_hmm [0, 0, 1, 0] = Inr [0, 0, 0, 0]"
  by (simp add: viterbi_def viterbi_forward_def steady_state_probabilities_def test_hmm_def
      nd_simps upt_rec transpose_getitem_def py_index_def broadcast_mul_def bag_step_def
      getitem2_def argmax_def)

theorem viterbi_negative_marbles_witness:
  "viterbi (\<lambda>m. NDArray [2, 1] [5, 2]) test_hmm [0, - 2, - 1, 0] = Inr [0, 0, 0, 0]"
proof -
  have "map (wrap_marble (num_cols (sampling_probabilities test_hmm))) [0, - 2, - 1, 0]
      = [0, 0, 1, 0]"
    by (simp add: wrap_marble_def test_hmm_def num_cols_def)
  then show ?thesis
    using viterbi_negative_marbles [of "\<lambda>m. NDArray [2, 1] [5, 2]" test_hmm "[0, - 2, - 1, 0]"]
      test_decoding_fixed
    by simp
qed

section \<open>Marbles out of range\<close>

text \<open>Converting the index first, as numpy does, gives the same result for every array
  whose length fits a signed 64-bit integer, that is, for every array numpy can hold.\<close>

lemma py_index_conversion_first:
  assumes "int n \<le> 2 ^ 63"
  shows "py_index n i =
     (if \<not> fits_intp i then Inl OverflowError
      else if 0 \<le> i \<and> i < int n then Inr (nat i)
      else if - int n \<le> i \<and> i < 0 then Inr (nat (int n + i))
      else Inl IndexError)"
  using assms by (auto simp: py_index_def index_failure_def fits_intp_def)






















lemma length_bags_loop:
  "bags_loop hmm ps marble bags = Inr new \<Longrightarrow> length new = length bags"
  by (induction bags arbitrary: new) (auto split: sum.splits)





lemma test_steady_fixed:
  "steady_state_probabilities (\<lambda>m. NDArray [2, 1] [5, 2]) test_hmm =
     Inr [Fin (5 / 7), Fin (2 / 7)]"
  by (simp add: steady_state_probabilities_def test_hmm_def nd_simps upt_rec)



section \<open>The decoded path\<close>

lemma length_marbles_loop:
  "marbles_loop hmm n rest ps pbm = Inr (ps', pbm') \<Longrightarrow>
     length pbm' = length pbm + length rest"
  by (induction rest arbitrary: ps pbm) (auto split: sum.splits)

lemma length_reconstruct:
  "reconstruct pas bag = Inr path \<Longrightarrow> length path = length pas"
  by (induction pas arbitrary: bag path) (auto simp: Let_def split: sum.splits if_splits)

lemma viterbi_path_length:
  assumes "viterbi null_space hmm sequence = Inr path"
  shows "length path = length sequence"
proof -
  from assms have ne: "sequence \<noteq> []" by (auto simp: viterbi_def)
  from assms ne obtain ps pbm end_bag rpath where
    fwd: "viterbi_forward null_space hmm sequence = Inr (ps, pbm)"
    and rec: "reconstruct (rev pbm) end_bag = Inr rpath"
    and path: "path = rev (end_bag # rpath)"
    by (auto simp: viterbi_def split: sum.splits prod.splits)
  from fwd have "length pbm = length (tl sequence)"
    by (auto simp: viterbi_forward_def split: sum.splits dest: length_marbles_loop)
  with rec path ne show ?thesis
    by (auto dest: length_reconstruct)
qed

lemma py_index_nat: "py_index n (int i) = Inr r \<Longrightarrow> r = i \<and> i < n"
  by (auto simp: py_index_def split: if_splits)

lemma getitem2_row_in_range: "getitem2 a (int i) j = Inr x \<Longrightarrow> i < len_nd a"
  by (auto simp: getitem2_def split: sum.splits dest: py_index_nat)

lemma scan_parents_parent:
  "scan_parents tm bag c ps mx best = Inr (mx', best') \<Longrightarrow>
     best' = best \<or> (c \<le> best' \<and> best' < c + length ps)"
proof (induction ps arbitrary: c mx best)
  case Nil
  then show ?case by simp
next
  case (Cons p ps)
  then show ?case
    by (fastforce simp: Let_def split: sum.splits if_splits)
qed

lemma scan_parents_length:
  "scan_parents tm bag c ps mx best = Inr r \<Longrightarrow> ps \<noteq> [] \<Longrightarrow>
     c + length ps \<le> len_nd tm"
proof (induction ps arbitrary: c mx best)
  case Nil
  then show ?case by simp
next
  case (Cons p ps)
  from Cons.prems(1) have c: "c < len_nd tm"
    by (auto split: sum.splits dest: getitem2_row_in_range)
  show ?case
  proof (cases "ps = []")
    case True
    with c show ?thesis by simp
  next
    case False
    from Cons.prems(1) obtain mx2 best2 where
      "scan_parents tm bag (Suc c) ps mx2 best2 = Inr r"
      by (auto simp: Let_def split: sum.splits if_splits)
    from Cons.IH[OF this False] show ?thesis by simp
  qed
qed

lemma bag_step_parent:
  assumes "bag_step hmm ps marble bag = Inr (p, parent)"
    and "0 < len_nd (transition_matrix hmm)"
  shows "parent < len_nd (transition_matrix hmm)"
proof -
  from assms(1) obtain mx where
    scan: "scan_parents (transition_matrix hmm) bag 0 ps (Fin 0) 0 = Inr (mx, parent)"
    by (auto simp: bag_step_def split: sum.splits prod.splits)
  from scan_parents_parent[OF scan] have "parent = 0 \<or> parent < length ps" by simp
  moreover have "ps \<noteq> [] \<Longrightarrow> length ps \<le> len_nd (transition_matrix hmm)"
    using scan_parents_length[OF scan] by simp
  ultimately show ?thesis using assms(2) by (cases "ps = []") auto
qed

lemma bags_loop_parents:
  assumes "bags_loop hmm ps marble bags = Inr new"
    and "0 < len_nd (transition_matrix hmm)"
  shows "\<forall>x\<in>set (map snd new). x < len_nd (transition_matrix hmm)"
  using assms
proof (induction bags arbitrary: new)
  case Nil
  then show ?case by simp
next
  case (Cons bag bags)
  from Cons.prems(1) obtain p parent rs where
    step: "bag_step hmm ps marble bag = Inr (p, parent)"
    and rest: "bags_loop hmm ps marble bags = Inr rs"
    and new: "new = (p, parent) # rs"
    by (auto split: sum.splits)
  from bag_step_parent[OF step Cons.prems(2)] Cons.IH[OF rest Cons.prems(2)] new
  show ?case by simp
qed

definition parents_ok :: "nat \<Rightarrow> nat list list \<Rightarrow> bool" where
  "parents_ok n pbm = list_all (\<lambda>pa. length pa = n \<and> list_all (\<lambda>x. x < n) pa) pbm"

lemma marbles_loop_parents:
  assumes "marbles_loop hmm n rest ps pbm = Inr (ps', pbm')"
    and "n = len_nd (transition_matrix hmm)"
    and "parents_ok n pbm"
  shows "parents_ok n pbm' \<and> (rest \<noteq> [] \<longrightarrow> length ps' = n) \<and> (rest = [] \<longrightarrow> ps' = ps)"
  using assms
proof (induction rest arbitrary: ps pbm)
  case Nil
  then show ?case by simp
next
  case (Cons marble rest)
  from Cons.prems(1) obtain new where
    new: "bags_loop hmm ps marble [0..<n] = Inr new"
    and loop: "marbles_loop hmm n rest (map fst new) (pbm @ [map snd new]) = Inr (ps', pbm')"
    by (auto split: sum.splits)
  have len: "length new = n" using length_bags_loop[OF new] by simp
  have "list_all (\<lambda>x. x < n) (map snd new)"
  proof (cases "n = 0")
    case True
    with len show ?thesis by simp
  next
    case False
    with bags_loop_parents[OF new] Cons.prems(2) show ?thesis
      by (simp add: list_all_iff)
  qed
  with len Cons.prems(3) have ok: "parents_ok n (pbm @ [map snd new])"
    by (simp add: parents_ok_def)
  from Cons.IH[OF loop Cons.prems(2) ok] len show ?case
    by (cases "rest = []") auto
qed

lemma argmax_scan_less: "max_ind < i \<Longrightarrow> argmax_scan mp max_ind i xs < i + length xs"
proof (induction xs arbitrary: mp max_ind i)
  case Nil
  then show ?case by simp
next
  case (Cons x xs)
  have a: "argmax_scan x i (Suc i) xs < Suc i + length xs"
    using Cons.IH[of i "Suc i" x] by simp
  have b: "argmax_scan mp max_ind (Suc i) xs < Suc i + length xs"
    using Cons.IH[of max_ind "Suc i" mp] Cons.prems by simp
  from a b Cons.prems show ?case by auto
qed

lemma argmax_less: "argmax xs = Inr i \<Longrightarrow> i < length xs"
  using argmax_scan_less[of 0 1] by (auto simp: argmax_def split: list.splits)

lemma reconstruct_range:
  "reconstruct pas bag = Inr path \<Longrightarrow> parents_ok n pas \<Longrightarrow> list_all (\<lambda>x. x < n) path"
proof (induction pas arbitrary: bag path)
  case Nil
  then show ?case by simp
next
  case (Cons pa pas)
  from Cons.prems(1) obtain rest where
    bag: "bag < length pa" and rest: "reconstruct pas (pa ! bag) = Inr rest"
    and path: "path = pa ! bag # rest"
    by (auto simp: Let_def split: sum.splits if_splits)
  from Cons.prems(2) have pa: "list_all (\<lambda>x. x < n) pa" and pas: "parents_ok n pas"
    by (simp_all add: parents_ok_def)
  from pa bag have "pa ! bag < n" by (simp add: list_all_length)
  with Cons.IH[OF rest pas] path show ?case by simp
qed

lemma length_broadcast_mul:
  "broadcast_mul xs ys = Inr zs \<Longrightarrow>
     length zs = length ys \<or> (length ys = 1 \<and> length zs = length xs)"
  by (auto simp: broadcast_mul_def split: if_splits)

lemma length_steady_state:
  assumes "steady_state_probabilities null_space hmm = Inr steady"
    and "is_null_space_basis (kernel_matrix hmm) (null_space (kernel_matrix hmm))"
  shows "length steady \<le> len_nd (transition_matrix hmm)"
proof -
  let ?b = "null_space (kernel_matrix hmm)"
  from assms(2) have wf: "wf_ndarray ?b" and sh: "length (shape ?b) = 2"
    and ln: "len_nd ?b = num_cols (kernel_matrix hmm)"
    by (simp_all add: is_null_space_basis_def)
  have "num_cols (kernel_matrix hmm) = len_nd (transition_matrix hmm)"
    by (simp add: kernel_matrix_def transpose_nd_def subtract_def num_cols_def len_nd_def)
  with ln have ln': "shape ?b ! 0 = len_nd (transition_matrix hmm)" by (simp add: len_nd_def)
  from sh obtain r k where shape: "shape ?b = [r, k]"
    by (metis (no_types) length_0_conv length_Suc_conv numeral_2_eq_2)
  from assms(1) sh shape have k: "k \<le> 1" and st: "length steady = length (flatten ?b)"
    by (auto simp: steady_state_probabilities_def Let_def split: if_splits)
  from wf shape have "length (flatten ?b) = r * k" by (simp add: wf_ndarray_def)
  with st k ln' shape show ?thesis
    by (cases "k = 0") auto
qed

text \<open>When the sampling probabilities have one row for each bag and the null-space
  routine returns a basis of the kernel, every decoded path has the length of the
  sequence and consists of bags of the model.\<close>

lemma viterbi_path_in_range:
  assumes res: "viterbi null_space hmm sequence = Inr path"
    and rows: "len_nd (sampling_probabilities hmm) = len_nd (transition_matrix hmm)"
    and basis: "is_null_space_basis (kernel_matrix hmm) (null_space (kernel_matrix hmm))"
  shows "length path = length sequence \<and>
         list_all (\<lambda>bag. bag < len_nd (transition_matrix hmm)) path"
proof -
  let ?n = "len_nd (transition_matrix hmm)"
  from res have ne: "sequence \<noteq> []" by (auto simp: viterbi_def)
  from res ne obtain ps pbm end_bag rpath where
    fwd: "viterbi_forward null_space hmm sequence = Inr (ps, pbm)"
    and am: "argmax ps = Inr end_bag"
    and rec: "reconstruct (rev pbm) end_bag = Inr rpath"
    and path: "path = rev (end_bag # rpath)"
    by (auto simp: viterbi_def split: sum.splits prod.splits)
  from fwd obtain steady col ps0 where
    steady: "steady_state_probabilities null_space hmm = Inr steady"
    and col: "transpose_getitem (sampling_probabilities hmm) (hd sequence) = Inr col"
    and bc: "broadcast_mul steady col = Inr ps0"
    and loop: "marbles_loop hmm ?n (tl sequence) ps0 [] = Inr (ps, pbm)"
    by (auto simp: viterbi_forward_def split: sum.splits)
  from col have lc: "length col = ?n"
    using rows by (auto simp: transpose_getitem_def column_of_def split: sum.splits)
  from length_broadcast_mul[OF bc] lc length_steady_state[OF steady basis]
  have l0: "length ps0 \<le> ?n" by auto
  from marbles_loop_parents[OF loop refl] have ok: "parents_ok ?n pbm"
    and lp: "tl sequence \<noteq> [] \<Longrightarrow> length ps = ?n" "tl sequence = [] \<Longrightarrow> ps = ps0"
    by (simp_all add: parents_ok_def)
  from lp l0 have "length ps \<le> ?n" by (cases "tl sequence = []") auto
  with argmax_less[OF am] have e: "end_bag < ?n" by simp
  from ok have "parents_ok ?n (rev pbm)" by (simp add: parents_ok_def)
  from reconstruct_range[OF rec this] e path
  have "list_all (\<lambda>bag. bag < ?n) path" by (simp add: list_all_iff)
  with viterbi_path_length[OF res] show ?thesis by simp
qed

text \<open>A model of one bag whose sampling probabilities have three rows: the validator of
  the sampling probabilities compares the number of dimensions of the two matrices, not
  their numbers of rows, and accepts it.\<close>

definition mismatched_hmm :: HiddenMarkovModel where
  "mismatched_hmm =
     \<lparr>transition_matrix = NDArray [1, 1] [1],
      sampling_probabilities = NDArray [3, 1] [1 / 4, 1 / 2, 1 / 4]\<rparr>"

lemma mismatched_kernel: "kernel_matrix mismatched_hmm = NDArray [1, 1] [0]"
  by (simp add: mismatched_hmm_def nd_simps)

lemma mismatched_basis: "is_null_space_basis (NDArray [1, 1] [0]) (NDArray [1, 1] [1])"
  unfolding is_null_space_basis_def
proof (intro conjI allI impI)
  fix v :: "real list"
  assume "length v = num_cols (NDArray [1, 1] [0]) \<and>
          all_zero (matvec (NDArray [1, 1] [0]) v)"
  then obtain a where v: "v = [a]"
    using length_one[of v] by (auto simp: nd_simps)
  show "\<exists>!c. length c = num_cols (NDArray [1, 1] [1]) \<and> matvec (NDArray [1, 1] [1]) c = v"
  proof (rule ex1I[of _ "[a]"])
    show "length [a] = num_cols (NDArray [1, 1] [1]) \<and> matvec (NDArray [1, 1] [1]) [a] = v"
      using v by (simp add: nd_simps)
  next
    fix c
    assume "length c = num_cols (NDArray [1, 1] [1]) \<and> matvec (NDArray [1, 1] [1]) c = v"
    then show "c = [a]"
      using v length_one[of c] by (auto simp: nd_simps)
  qed
next
  fix c :: "real list"
  assume "length c = num_cols (NDArray [1, 1] [1])"
  then show "all_zero (matvec (NDArray [1, 1] [0]) (matvec (NDArray [1, 1] [1]) c))"
    using length_one[of c] by (auto simp: nd_simps)
qed (simp_all add: nd_simps)

text \<open>
  C7 fails on that model.  The steady-state vector \<open>[1.0]\<close> is stretched over the three
  rows of the column of the first marble, the probability vector has three entries, and
  the decoded path of the sequence \<open>[0]\<close> is \<open>[1]\<close>, which is no bag of a model of one bag.
\<close>

theorem viterbi_mismatched_rows:
  "HiddenMarkovModel_init (NDArray [1, 1] [1]) (NDArray [3, 1] [1 / 4, 1 / 2, 1 / 4]) =
     Inr mismatched_hmm \<and>
   len_nd (transition_matrix mismatched_hmm) = 1 \<and>
   steady_state_probabilities (\<lambda>m. NDArray [1, 1] [1]) mismatched_hmm = Inr [Fin 1] \<and>
   viterbi_forward (\<lambda>m. NDArray [1, 1] [1]) mismatched_hmm [0] =
     Inr ([Fin (1 / 4), Fin (1 / 2), Fin (1 / 4)], []) \<and>
   viterbi (\<lambda>m. NDArray [1, 1] [1]) mismatched_hmm [0] = Inr [1]"
  by (simp add: HiddenMarkovModel_init_def valid_tranisition_matrix_def
      valid_sampling_probabilities_def sum_axis1_def
      viterbi_def viterbi_forward_def steady_state_probabilities_def mismatched_hmm_def
      nd_simps upt_rec transpose_getitem_def py_index_def broadcast_mul_def argmax_def)

section \<open>The forward recurrence\<close>

text \<open>
  The recurrence in the words of the specification.  The initial vector is
  \<open>prob[state] = stationary[state] * emission_matrix[state][obs[0]]\<close> for every state.  At a
  later step, \<open>best_prev\<close> for a state \<open>s\<close> is found by scanning the prior states in the
  order of their indices, comparing each product \<open>prob[p] * transition_matrix[p][s]\<close> with a
  running maximum that starts at \<open>0.0\<close> and is replaced only by a strictly greater
  product; the new probability is
  \<open>prob[best_prev] * transition_matrix[best_prev][s] * emission_matrix[s][obs[t]]\<close>, and the
  backpointer is \<open>best_prev\<close>.
\<close>

definition spec_initial :: "npfloat list \<Rightarrow> ndarray \<Rightarrow> nat \<Rightarrow> nat \<Rightarrow> npfloat list" where
  "spec_initial stationary em n ob =
     map (\<lambda>state. float_mul (stationary ! state) (entry em state ob)) [0..<n]"

definition spec_candidate :: "npfloat list \<Rightarrow> ndarray \<Rightarrow> nat \<Rightarrow> nat \<Rightarrow> npfloat" where
  "spec_candidate prob tm s p = float_mul (prob ! p) (entry tm p s)"

definition spec_compare :: "npfloat list \<Rightarrow> ndarray \<Rightarrow> nat \<Rightarrow> nat \<Rightarrow> npfloat \<times> nat \<Rightarrow> npfloat \<times> nat" where
  "spec_compare prob tm s p running =
     (if float_gt (spec_candidate prob tm s p) (fst running)
      then (spec_candidate prob tm s p, p)
      else running)"

definition spec_scan :: "npfloat list \<Rightarrow> ndarray \<Rightarrow> nat \<Rightarrow> nat \<Rightarrow> npfloat \<times> nat" where
  "spec_scan prob tm s k = fold (spec_compare prob tm s) [0..<k] (Fin 0, 0)"

definition spec_best_prev :: "npfloat list \<Rightarrow> ndarray \<Rightarrow> nat \<Rightarrow> nat \<Rightarrow> nat" where
  "spec_best_prev prob tm n s = snd (spec_scan prob tm s n)"

definition spec_new_prob :: "npfloat list \<Rightarrow> ndarray \<Rightarrow> ndarray \<Rightarrow> nat \<Rightarrow> nat \<Rightarrow> nat \<Rightarrow> npfloat" where
  "spec_new_prob prob tm em n s ob =
     float_mul
       (float_mul (prob ! spec_best_prev prob tm n s) (entry tm (spec_best_prev prob tm n s) s))
       (entry em s ob)"

fun spec_forward ::
  "ndarray \<Rightarrow> ndarray \<Rightarrow> nat \<Rightarrow> npfloat list \<Rightarrow> nat list \<Rightarrow> npfloat list \<times> nat list list" where
  "spec_forward tm em n prob [] = (prob, [])"
| "spec_forward tm em n prob (ob # obs) =
     (case spec_forward tm em n (map (\<lambda>s. spec_new_prob prob tm em n s ob) [0..<n]) obs of
        (final, backpointers) \<Rightarrow>
          (final, map (spec_best_prev prob tm n) [0..<n] # backpointers))"

text \<open>A probability that is finite and not negative.\<close>

definition finite_nonneg :: "npfloat \<Rightarrow> bool" where
  "finite_nonneg x = (case x of Fin r \<Rightarrow> 0 \<le> r | PInf \<Rightarrow> False | NInf \<Rightarrow> False | NaN \<Rightarrow> False)"

lemma finite_nonneg_iff: "finite_nonneg x \<longleftrightarrow> (\<exists>r. 0 \<le> r \<and> x = Fin r)"
  by (cases x) (auto simp: finite_nonneg_def)

lemma finite_nonneg_mul: "finite_nonneg x \<Longrightarrow> 0 \<le> t \<Longrightarrow> finite_nonneg (float_mul x t)"
  by (auto simp: finite_nonneg_iff)

lemma finite_nonneg_not_gt: "finite_nonneg x \<Longrightarrow> \<not> float_gt x (Fin 0) \<Longrightarrow> x = Fin 0"
  by (auto simp: finite_nonneg_iff)

lemma getitem2_nat:
  "i < len_nd a \<Longrightarrow> j < num_cols a \<Longrightarrow> getitem2 a (int i) (int j) = Inr (entry a i j)"
  by (simp add: getitem2_def py_index_def)

lemma scan_parents_fold:
  assumes "length prob \<le> len_nd tm" and "s < num_cols tm" and "c \<le> length prob"
  shows "scan_parents tm s c (drop c prob) running best =
           Inr (fold (spec_compare prob tm s) [c..<length prob] (running, best))"
  using assms(3)
proof (induction "length prob - c" arbitrary: c running best)
  case 0
  then show ?case by simp
next
  case (Suc d)
  then have c: "c < length prob" by simp
  then have drop: "drop c prob = prob ! c # drop (Suc c) prob"
    by (simp add: Cons_nth_drop_Suc)
  from c have upt: "[c..<length prob] = c # [Suc c..<length prob]"
    by (simp add: upt_conv_Cons)
  from c assms(1) have get: "getitem2 tm (int c) (int s) = Inr (entry tm c s)"
    using assms(2) by (simp add: getitem2_nat)
  from Suc.hyps(2) have d: "d = length prob - Suc c" by simp
  from c have le: "Suc c \<le> length prob" by simp
  show ?case
    unfolding drop upt
    by (simp add: get Let_def Suc.hyps(1)[OF d le] spec_compare_def spec_candidate_def)
qed

lemma spec_scan_Suc:
  "spec_scan prob tm s (Suc k) = spec_compare prob tm s k (spec_scan prob tm s k)"
  by (simp add: spec_scan_def)

lemma spec_scan_attained:
  assumes "\<forall>p<k. finite_nonneg (spec_candidate prob tm s p)" and "0 < k"
  shows "fst (spec_scan prob tm s k) = spec_candidate prob tm s (snd (spec_scan prob tm s k)) \<and>
         snd (spec_scan prob tm s k) < k"
  using assms
proof (induction k)
  case 0
  then show ?case by simp
next
  case (Suc k)
  show ?case
  proof (cases "k = 0")
    case True
    with Suc.prems(1) have "finite_nonneg (spec_candidate prob tm s 0)" by simp
    then have "\<not> float_gt (spec_candidate prob tm s 0) (Fin 0) \<Longrightarrow>
        spec_candidate prob tm s 0 = Fin 0"
      by (rule finite_nonneg_not_gt)
    then show ?thesis
      using True by (auto simp: spec_scan_Suc spec_compare_def spec_scan_def)
  next
    case False
    with Suc have "fst (spec_scan prob tm s k) =
        spec_candidate prob tm s (snd (spec_scan prob tm s k)) \<and>
        snd (spec_scan prob tm s k) < k" by simp
    then show ?thesis
      by (auto simp: spec_scan_Suc spec_compare_def)
  qed
qed

lemma spec_scan_no_candidate:
  "\<forall>p<k. \<not> float_gt (spec_candidate prob tm s p) (Fin 0) \<Longrightarrow>
     spec_scan prob tm s k = (Fin 0, 0)"
  by (induction k) (simp_all add: spec_scan_Suc spec_compare_def, simp add: spec_scan_def)

lemma map2_nth_upt:
  "length xs = n \<Longrightarrow> map2 f xs (map g [0..<n]) = map (\<lambda>i. f (xs ! i) (g i)) [0..<n]"
  by (rule nth_equalityI) simp_all

lemma bag_step_spec:
  assumes valid: "HiddenMarkovModel_init tm em = Inr hmm"
    and wf: "wf_ndarray tm" "wf_ndarray em"
    and rows: "len_nd em = len_nd tm"
    and len: "length prob = len_nd tm"
    and nonneg: "list_all finite_nonneg prob"
    and s: "s < len_nd tm"
    and ob: "ob < num_cols em"
  shows "bag_step hmm prob (int ob) s =
           Inr (spec_new_prob prob tm em (len_nd tm) s ob, spec_best_prev prob tm (len_nd tm) s) \<and>
         finite_nonneg (spec_new_prob prob tm em (len_nd tm) s ob)"
proof -
  let ?n = "len_nd tm"
  note D = init_Inr_D[OF valid]
  from D(4) s have s': "s < num_cols tm" by simp
  have scan: "scan_parents tm s 0 prob (Fin 0) 0 = Inr (spec_scan prob tm s ?n)"
    using scan_parents_fold[of prob tm s 0 "Fin 0" 0] len s'
    by (simp add: spec_scan_def)
  have cand: "\<forall>p<?n. finite_nonneg (spec_candidate prob tm s p)"
  proof (intro allI impI)
    fix p assume p: "p < ?n"
    with nonneg len have "finite_nonneg (prob ! p)" by (simp add: list_all_length)
    moreover have "0 \<le> entry tm p s"
      using entry_nonneg[OF wf(1) D(3) D(5) p s'] .
    ultimately show "finite_nonneg (spec_candidate prob tm s p)"
      by (simp add: spec_candidate_def finite_nonneg_mul)
  qed
  from s have pos: "0 < ?n" by simp
  from spec_scan_attained[OF cand pos]
  have att: "fst (spec_scan prob tm s ?n) =
      spec_candidate prob tm s (spec_best_prev prob tm ?n s)"
    and bp: "spec_best_prev prob tm ?n s < ?n"
    by (simp_all add: spec_best_prev_def)
  from s rows have get: "getitem2 em (int s) (int ob) = Inr (entry em s ob)"
    using ob by (simp add: getitem2_nat)
  have eq: "bag_step hmm prob (int ob) s =
      Inr (spec_new_prob prob tm em ?n s ob, spec_best_prev prob tm ?n s)"
    using att
    by (auto simp: bag_step_def D(1,2) scan get spec_new_prob_def spec_candidate_def
        spec_best_prev_def split: prod.splits)
  from s rows have "0 \<le> entry em s ob"
    using entry_nonneg[OF wf(2) D(6) D(7), of s ob] ob by simp
  with cand bp have "finite_nonneg (spec_new_prob prob tm em ?n s ob)"
    by (simp add: spec_new_prob_def spec_candidate_def finite_nonneg_mul)
  with eq show ?thesis by simp
qed

lemma bags_loop_spec:
  assumes valid: "HiddenMarkovModel_init tm em = Inr hmm"
    and wf: "wf_ndarray tm" "wf_ndarray em"
    and rows: "len_nd em = len_nd tm"
    and len: "length prob = len_nd tm"
    and nonneg: "list_all finite_nonneg prob"
    and ob: "ob < num_cols em"
    and bags: "\<forall>s\<in>set bags. s < len_nd tm"
  shows "bags_loop hmm prob (int ob) bags =
           Inr (map (\<lambda>s. (spec_new_prob prob tm em (len_nd tm) s ob,
                           spec_best_prev prob tm (len_nd tm) s)) bags)"
  using bags
proof (induction bags)
  case Nil
  then show ?case by simp
next
  case (Cons s bags)
  then show ?case
    using bag_step_spec[OF valid wf rows len nonneg _ ob, of s] by simp
qed

lemma marbles_loop_spec:
  assumes valid: "HiddenMarkovModel_init tm em = Inr hmm"
    and wf: "wf_ndarray tm" "wf_ndarray em"
    and rows: "len_nd em = len_nd tm"
    and len: "length prob = len_nd tm"
    and nonneg: "list_all finite_nonneg prob"
    and obs: "\<forall>ob\<in>set obs. ob < num_cols em"
  shows "marbles_loop hmm (len_nd tm) (map int obs) prob pbm =
           Inr (case spec_forward tm em (len_nd tm) prob obs of
                  (final, backpointers) \<Rightarrow> (final, pbm @ backpointers))"
  using len nonneg obs
proof (induction obs arbitrary: prob pbm)
  case Nil
  then show ?case by simp
next
  case (Cons ob obs)
  let ?n = "len_nd tm"
  let ?new = "map (\<lambda>s. (spec_new_prob prob tm em ?n s ob, spec_best_prev prob tm ?n s)) [0..<?n]"
  from Cons.prems have ob: "ob < num_cols em" and rest: "\<forall>ob\<in>set obs. ob < num_cols em"
    by simp_all
  have loop: "bags_loop hmm prob (int ob) [0..<?n] = Inr ?new"
    using bags_loop_spec[OF valid wf rows Cons.prems(1,2) ob, of "[0..<?n]"] by simp
  let ?prob' = "map (\<lambda>s. spec_new_prob prob tm em ?n s ob) [0..<?n]"
  let ?best = "map (spec_best_prev prob tm ?n) [0..<?n]"
  have step: "marbles_loop hmm ?n (map int (ob # obs)) prob pbm =
      marbles_loop hmm ?n (map int obs) ?prob' (pbm @ [?best])"
    by (simp add: loop comp_def)
  have len': "length ?prob' = ?n" by simp
  have nn: "list_all finite_nonneg ?prob'"
    using bag_step_spec[OF valid wf rows Cons.prems(1,2) _ ob]
    by (simp add: list_all_iff)
  show ?case
    unfolding step Cons.IH[OF len' nn rest, of "pbm @ [?best]"]
    by (simp split: prod.splits)
qed

lemma viterbi_forward_refines:
  assumes valid: "HiddenMarkovModel_init tm em = Inr hmm"
    and wf: "wf_ndarray tm" "wf_ndarray em"
    and rows: "len_nd em = len_nd tm"
    and steady: "steady_state_probabilities null_space hmm = Inr stationary"
    and len: "length stationary = len_nd tm"
    and nonneg: "list_all finite_nonneg stationary"
    and ne: "sequence \<noteq> []"
    and obs: "\<forall>ob\<in>set sequence. ob < num_cols em"
  shows "viterbi_forward null_space hmm (map int sequence) =
           Inr (spec_forward tm em (len_nd tm)
                  (spec_initial stationary em (len_nd tm) (hd sequence)) (tl sequence)) \<and>
         (\<forall>prob s. (\<forall>p<len_nd tm. spec_candidate prob tm s p = Fin 0) \<longrightarrow>
                     spec_best_prev prob tm (len_nd tm) s = 0)"
proof
  let ?n = "len_nd tm"
  note D = init_Inr_D[OF valid]
  from ne obtain ob rest where seq: "sequence = ob # rest" by (cases sequence) auto
  with obs have ob: "ob < num_cols em" and rest: "\<forall>ob\<in>set rest. ob < num_cols em"
    by simp_all
  have col: "transpose_getitem em (int ob) = Inr (column_of em ob)"
    using ob by (simp add: transpose_getitem_def py_index_def)
  have init: "broadcast_mul stationary (column_of em ob) =
      Inr (spec_initial stationary em ?n ob)"
    using len rows
    by (simp add: broadcast_mul_def column_of_def spec_initial_def map2_nth_upt)
  have len0: "length (spec_initial stationary em ?n ob) = ?n"
    by (simp add: spec_initial_def)
  have nn0: "list_all finite_nonneg (spec_initial stationary em ?n ob)"
  proof -
    have "finite_nonneg (float_mul (stationary ! s) (entry em s ob))" if "s < ?n" for s
    proof -
      from that nonneg len have "finite_nonneg (stationary ! s)" by (simp add: list_all_length)
      moreover from that rows have "0 \<le> entry em s ob"
        using entry_nonneg[OF wf(2) D(6) D(7), of s ob] ob by simp
      ultimately show ?thesis by (rule finite_nonneg_mul)
    qed
    then show ?thesis by (simp add: spec_initial_def list_all_iff)
  qed
  show "viterbi_forward null_space hmm (map int sequence) =
           Inr (spec_forward tm em ?n (spec_initial stationary em ?n (hd sequence))
                  (tl sequence))"
    using marbles_loop_spec[OF valid wf rows len0 nn0 rest, of "[]"]
    by (simp add: viterbi_forward_def seq steady D(1,2) col init split: prod.splits)
  show "\<forall>prob s. (\<forall>p<?n. spec_candidate prob tm s p = Fin 0) \<longrightarrow>
                     spec_best_prev prob tm ?n s = 0"
    by (simp add: spec_best_prev_def spec_scan_no_candidate)
qed

text \<open>The steady-state vector of a model none of whose transition rows sums to more than
  one, when the kernel has dimension one.\<close>

lemma steady_state_stochastic:
  assumes valid: "HiddenMarkovModel_init tm em = Inr hmm"
    and wf: "wf_ndarray tm"
    and rows: "\<forall>s\<in>set (sum_axis1 tm). s \<le> 1"
    and basis: "is_null_space_basis (kernel_matrix hmm) (null_space (kernel_matrix hmm))"
    and one: "num_cols (null_space (kernel_matrix hmm)) = 1"
  shows "\<exists>stationary. steady_state_probabilities null_space hmm = Inr stationary \<and>
           length stationary = len_nd tm \<and> list_all finite_nonneg stationary"
proof -
  let ?b = "null_space (kernel_matrix hmm)"
  let ?w = "flatten ?b"
  note S = basis_vector_sign[OF valid wf rows basis one]
  let ?st = "map (\<lambda>x. float_div x (sum_list ?w)) ?w"
  have eq: "steady_state_probabilities null_space hmm = Inr ?st"
    using S(1) by (simp add: steady_state_probabilities_def Let_def)
  have "finite_nonneg (float_div x (sum_list ?w))" if "x \<in> set ?w" for x
  proof -
    from S(3) have "0 \<le> x / sum_list ?w"
    proof
      assume p: "\<forall>y\<in>set ?w. 0 \<le> y"
      then have "0 \<le> sum_list ?w" by (rule sum_list_nonneg_real)
      with p that show ?thesis by simp
    next
      assume p: "\<forall>y\<in>set ?w. y \<le> 0"
      then have "sum_list ?w \<le> 0" by (rule sum_list_nonpos_real)
      with p that show ?thesis by (simp add: divide_nonpos_nonpos)
    qed
    with S(4) show ?thesis by (simp add: finite_nonneg_def)
  qed
  then have "list_all finite_nonneg ?st" by (simp add: list_all_iff del: float_div.simps)
  with eq S(2) show ?thesis by simp
qed

text \<open>
  C1, as the code has it.  For every validated model whose sampling probabilities have
  one row for each of the \<open>n\<close> bags and whose steady-state vector has \<open>n\<close> entries, all
  finite and non-negative, and for every non-empty sequence of marbles in range, the
  forward pass of \<^verbatim>\<open>viterbi\<close> computes exactly the recurrence of the specification: the
  initial vector, at each later step the backpointers found by the strict scan from the
  running maximum \<open>0.0\<close>, and the new probabilities
  \<open>prob[best_prev] * T[best_prev][s] * E[s][obs[t]]\<close>.  The steady-state vector is of that
  kind whenever no transition row sums to more than one and the kernel has dimension one.
  When every candidate product is \<open>0\<close> the backpointer is the prior state \<open>0\<close>.
\<close>

theorem viterbi_forward_recurrence:
  assumes valid: "HiddenMarkovModel_init tm em = Inr hmm"
    and wf: "wf_ndarray tm" "wf_ndarray em"
    and rows: "len_nd em = len_nd tm"
    and ne: "sequence \<noteq> []"
    and obs: "\<forall>ob\<in>set sequence. ob < num_cols em"
  shows "(steady_state_probabilities null_space hmm = Inr stationary \<and>
          length stationary = len_nd tm \<and> list_all finite_nonneg stationary \<longrightarrow>
            viterbi_forward null_space hmm (map int sequence) =
              Inr (spec_forward tm em (len_nd tm)
                     (spec_initial stationary em (len_nd tm) (hd sequence)) (tl sequence))) \<and>
         ((\<forall>s\<in>set (sum_axis1 tm). s \<le> 1) \<and>
          is_null_space_basis (kernel_matrix hmm) (null_space (kernel_matrix hmm)) \<and>
          num_cols (null_space (kernel_matrix hmm)) = 1 \<longrightarrow>
            (\<exists>steady. steady_state_probabilities null_space hmm = Inr steady \<and>
               length steady = len_nd tm \<and> list_all finite_nonneg steady \<and>
               viterbi_forward null_space hmm (map int sequence) =
                 Inr (spec_forward tm em (len_nd tm)
                        (spec_initial steady em (len_nd tm) (hd sequence)) (tl sequence)))) \<and>
         (\<forall>prob s. (\<forall>p<len_nd tm. spec_candidate prob tm s p = Fin 0) \<longrightarrow>
                     spec_best_prev prob tm (len_nd tm) s = 0)"
proof (intro conjI impI)
  show general: "viterbi_forward null_space hmm (map int sequence) =
      Inr (spec_forward tm em (len_nd tm)
             (spec_initial st em (len_nd tm) (hd sequence)) (tl sequence))"
    if "steady_state_probabilities null_space hmm = Inr st \<and>
        length st = len_nd tm \<and> list_all finite_nonneg st" for st
    using viterbi_forward_refines[OF valid wf rows _ _ _ ne obs, of null_space st] that
    by simp
  show "\<exists>steady. steady_state_probabilities null_space hmm = Inr steady \<and>
          length steady = len_nd tm \<and> list_all finite_nonneg steady \<and>
          viterbi_forward null_space hmm (map int sequence) =
            Inr (spec_forward tm em (len_nd tm)
                   (spec_initial steady em (len_nd tm) (hd sequence)) (tl sequence))"
    if h: "(\<forall>s\<in>set (sum_axis1 tm). s \<le> 1) \<and>
        is_null_space_basis (kernel_matrix hmm) (null_space (kernel_matrix hmm)) \<and>
        num_cols (null_space (kernel_matrix hmm)) = 1"
  proof -
    from h steady_state_stochastic[OF valid wf(1), of null_space]
    obtain st where "steady_state_probabilities null_space hmm = Inr st \<and>
        length st = len_nd tm \<and> list_all finite_nonneg st" by blast
    with general[of st] show ?thesis by blast
  qed
  show "\<forall>prob s. (\<forall>p<len_nd tm. spec_candidate prob tm s p = Fin 0) \<longrightarrow>
                     spec_best_prev prob tm (len_nd tm) s = 0"
    by (simp add: spec_best_prev_def spec_scan_no_candidate)
qed

lemmas spec_simps = spec_initial_def spec_new_prob_def spec_best_prev_def spec_scan_def
  spec_compare_def spec_candidate_def

text \<open>The model and the sequence of the repository's tests.\<close>

theorem viterbi_forward_recurrence_witness:
  "is_null_space_basis (kernel_matrix test_hmm) (NDArray [2, 1] [5, 2]) \<and>
   sum_axis1 (NDArray [2, 2] [8 / 10, 2 / 10, 5 / 10, 5 / 10]) = [1, 1] \<and>
   steady_state_probabilities (\<lambda>m. NDArray [2, 1] [5, 2]) test_hmm =
     Inr [Fin (5 / 7), Fin (2 / 7)] \<and>
   viterbi_forward (\<lambda>m. NDArray [2, 1] [5, 2]) test_hmm (map int [0, 0, 1, 0]) =
     Inr (spec_forward (NDArray [2, 2] [8 / 10, 2 / 10, 5 / 10, 5 / 10])
            (NDArray [2, 2] [4 / 10, 6 / 10, 7 / 10, 3 / 10]) 2
            (spec_initial [Fin (5 / 7), Fin (2 / 7)]
               (NDArray [2, 2] [4 / 10, 6 / 10, 7 / 10, 3 / 10]) 2 0)
            [0, 1, 0]) \<and>
   spec_forward (NDArray [2, 2] [8 / 10, 2 / 10, 5 / 10, 5 / 10])
     (NDArray [2, 2] [4 / 10, 6 / 10, 7 / 10, 3 / 10]) 2
     (spec_initial [Fin (5 / 7), Fin (2 / 7)]
        (NDArray [2, 2] [4 / 10, 6 / 10, 7 / 10, 3 / 10]) 2 0)
     [0, 1, 0] =
     ([Fin (1536 / 109375), Fin (96 / 15625)], [[0, 1], [0, 1], [0, 0]])"
proof -
  have vals: "spec_forward (NDArray [2, 2] [8 / 10, 2 / 10, 5 / 10, 5 / 10])
     (NDArray [2, 2] [4 / 10, 6 / 10, 7 / 10, 3 / 10]) 2
     (spec_initial [Fin (5 / 7), Fin (2 / 7)]
        (NDArray [2, 2] [4 / 10, 6 / 10, 7 / 10, 3 / 10]) 2 0)
     [0, 1, 0] =
     ([Fin (1536 / 109375), Fin (96 / 15625)], [[0, 1], [0, 1], [0, 0]])"
    by (simp add: spec_simps entry_def num_cols_def upt_rec)
  have rows: "sum_axis1 (NDArray [2, 2] [8 / 10, 2 / 10, 5 / 10, 5 / 10]) = [1, 1]"
    by (simp add: sum_axis1_def row_of_def len_nd_def num_cols_def upt_rec)
  have basis: "is_null_space_basis (kernel_matrix test_hmm) (NDArray [2, 1] [5, 2])"
    using test_basis by (simp add: test_kernel)
  show ?thesis
    using viterbi_forward_recurrence
            [of "NDArray [2, 2] [8 / 10, 2 / 10, 5 / 10, 5 / 10]"
                "NDArray [2, 2] [4 / 10, 6 / 10, 7 / 10, 3 / 10]" test_hmm
                "[0, 0, 1, 0]" "\<lambda>m. NDArray [2, 1] [5, 2]" "[Fin (5 / 7), Fin (2 / 7)]"]
      test_hmm_valid test_steady_fixed vals rows basis
    by (simp add: wf_ndarray_def len_nd_def num_cols_def finite_nonneg_def)
qed

text \<open>
  C1, as the specification has it, fails on the model inside the tolerance, whose
  steady-state vector is \<open>(-1, 2)\<close>.  After the first marble the probabilities are
  \<open>(-1, 0)\<close>; no candidate product is greater than \<open>0.0\<close>, the backpointers are \<open>0\<close>, and
  the code multiplies the running maximum \<open>0.0\<close> with the sampling probability, where the
  formula of the specification multiplies the negative product of the prior state \<open>0\<close>.
\<close>

theorem viterbi_forward_recurrence_counterexample:
  "HiddenMarkovModel_init
     (NDArray [2, 2] [1 + 1 / 524288, 1 / 524288, 1 / 1048576, 1 + 1 / 1048576])
     (NDArray [2, 2] [1, 0, 0, 1]) = Inr tolerance_hmm \<and>
   is_null_space_basis (kernel_matrix tolerance_hmm) (NDArray [2, 1] [1, - 2]) \<and>
   steady_state_probabilities (\<lambda>m. NDArray [2, 1] [1, - 2]) tolerance_hmm =
     Inr [Fin (- 1), Fin 2] \<and>
   viterbi_forward (\<lambda>m. NDArray [2, 1] [1, - 2]) tolerance_hmm (map int [0, 0]) =
     Inr ([Fin 0, Fin 0], [[0, 0]]) \<and>
   spec_forward (NDArray [2, 2] [1 + 1 / 524288, 1 / 524288, 1 / 1048576, 1 + 1 / 1048576])
     (NDArray [2, 2] [1, 0, 0, 1]) 2
     (spec_initial [Fin (- 1), Fin 2] (NDArray [2, 2] [1, 0, 0, 1]) 2 0) [0] =
     ([Fin (- (524289 / 524288)), Fin 0], [[0, 0]]) \<and>
   viterbi_forward (\<lambda>m. NDArray [2, 1] [1, - 2]) tolerance_hmm (map int [0, 0]) \<noteq>
     Inr (spec_forward
            (NDArray [2, 2] [1 + 1 / 524288, 1 / 524288, 1 / 1048576, 1 + 1 / 1048576])
            (NDArray [2, 2] [1, 0, 0, 1]) 2
            (spec_initial [Fin (- 1), Fin 2] (NDArray [2, 2] [1, 0, 0, 1]) 2 0) [0])"
proof -
  have steady: "steady_state_probabilities (\<lambda>m. NDArray [2, 1] [1, - 2]) tolerance_hmm =
     Inr [Fin (- 1), Fin 2]"
    by (simp add: steady_state_probabilities_def)
  have code: "viterbi_forward (\<lambda>m. NDArray [2, 1] [1, - 2]) tolerance_hmm (map int [0, 0]) =
     Inr ([Fin 0, Fin 0], [[0, 0]])"
    unfolding viterbi_forward_def steady
    by (simp add: tolerance_hmm_def transpose_getitem_def py_index_def
      broadcast_mul_def bag_step_def getitem2_def column_of_def entry_def len_nd_def
      num_cols_def upt_rec)
  have spec: "spec_forward
     (NDArray [2, 2] [1 + 1 / 524288, 1 / 524288, 1 / 1048576, 1 + 1 / 1048576])
     (NDArray [2, 2] [1, 0, 0, 1]) 2
     (spec_initial [Fin (- 1), Fin 2] (NDArray [2, 2] [1, 0, 0, 1]) 2 0) [0] =
     ([Fin (- (524289 / 524288)), Fin 0], [[0, 0]])"
    by (simp add: spec_simps entry_def num_cols_def upt_rec)
  have basis: "is_null_space_basis (kernel_matrix tolerance_hmm) (NDArray [2, 1] [1, - 2])"
    using tolerance_basis by (simp add: tolerance_kernel)
  show ?thesis
    unfolding code spec using tolerance_hmm_valid basis steady by simp
qed

end
